theory Spec2Isabelle
  imports Complex_Main "HOL-Library.Log_Nat" "HOL-Library.Code_Target_Numeral"
begin

text \<open>
  A model of \<^verbatim>\<open>src/index.js\<close>, the Twitch chat bot backend: the retry loop
  \<^verbatim>\<open>withRetry\<close>, the timeout race \<^verbatim>\<open>withTimeout\<close>, the upstream call
  \<^verbatim>\<open>callOpenAIChat\<close> and the route \<^verbatim>\<open>GET /gpt/:text\<close> with its conversation
  history, followed by the properties proved of them.
\<close>

section \<open>Errors, promises and the retriable test\<close>

text \<open>
  What the route reads of \<^verbatim>\<open>err.response.data\<close>: whether the value is truthy
  (\<^verbatim>\<open>0\<close>, \<^verbatim>\<open>false\<close>, \<^verbatim>\<open>null\<close> and \<^verbatim>\<open>''\<close> are not), and the text that
  \<^verbatim>\<open>JSON.stringify\<close> gives for it (\<open>None\<close> when that is \<^verbatim>\<open>undefined\<close>).
\<close>

record response_data =
  data_truthy :: bool
  data_json :: "string option"

text \<open>
  The fields of a thrown value that \<^verbatim>\<open>src/index.js\<close> reads: \<^verbatim>\<open>err.status\<close>,
  \<^verbatim>\<open>err.response.status\<close>, \<^verbatim>\<open>err.response.data\<close>, \<^verbatim>\<open>err.code\<close> and
  \<^verbatim>\<open>err.message\<close>. Each is optional (\<^verbatim>\<open>?.\<close> yields \<^verbatim>\<open>undefined\<close>, here \<open>None\<close>).
\<close>

record err =
  err_status :: "int option"
  err_response_status :: "int option"
  err_response_data :: "response_data option"
  err_code :: "string option"
  err_message :: "string option"

text \<open>
  \<^verbatim>\<open>a || b\<close> on optional numbers: \<^verbatim>\<open>undefined\<close> and \<^verbatim>\<open>0\<close> are falsy, so \<open>b\<close> is taken.
\<close>

definition js_or_num :: "int option \<Rightarrow> int option \<Rightarrow> int option" where
  "js_or_num a b = (case a of None \<Rightarrow> b | Some s \<Rightarrow> if s = 0 then b else Some s)"

text \<open>\<^verbatim>\<open>const status = err?.status || err?.response?.status;\<close> (lines 81, 221, 256, 285).\<close>

definition status_of :: "err \<Rightarrow> int option" where
  "status_of e = js_or_num (err_status e) (err_response_status e)"

definition retriableStatuses :: "int list" where
  "retriableStatuses = [408, 409, 425, 429, 500, 502, 503, 504]"

definition retriableCodes :: "string list" where
  "retriableCodes =
     [''ECONNRESET'', ''EPIPE'', ''UND_ERR_CONNECT_TIMEOUT'', ''UND_ERR_HEADERS_TIMEOUT'',
      ''UND_ERR_BODY_TIMEOUT'', ''ETIMEDOUT'', ''ESOCKETTIMEDOUT'']"

text \<open>\<^verbatim>\<open>Set.prototype.has\<close> on a value that may be \<^verbatim>\<open>undefined\<close>.\<close>

definition has :: "'a list \<Rightarrow> 'a option \<Rightarrow> bool" where
  "has xs v = (case v of None \<Rightarrow> False | Some x \<Rightarrow> x \<in> set xs)"

text \<open>
  \<^verbatim>\<open>const retriable = retriableStatuses.has(status) || retriableCodes.has(code);\<close> (line 88).
\<close>

definition retriable :: "err \<Rightarrow> bool" where
  "retriable e = (has retriableStatuses (status_of e) \<or> has retriableCodes (err_code e))"

text \<open>
  A promise as its awaiter sees it: it never settles, or it settles a number of
  milliseconds after it was created, rejected (\<open>Inl\<close>) or fulfilled (\<open>Inr\<close>).
\<close>

datatype 'a promise = Pending | Settled nat "err + 'a"

fun outcome_of :: "'a promise \<Rightarrow> (err + 'a) option" where
  "outcome_of Pending = None"
| "outcome_of (Settled t x) = Some x"

section \<open>withRetry\<close>

text \<open>The argument object of one \<^verbatim>\<open>onRetry\<close> call (line 95).\<close>

record retry_event =
  ev_attempt :: nat
  ev_status :: "int option"
  ev_code :: "string option"
  ev_delay :: "int option"
  ev_message :: "string option"

text \<open>
  What one run of \<^verbatim>\<open>withRetry\<close> does: the promise it returns, how many times it
  invoked \<^verbatim>\<open>fn\<close>, and the \<^verbatim>\<open>onRetry\<close> calls it made, in order.
\<close>

record 'a retry_result =
  settled :: "'a promise"
  calls :: nat
  events :: "retry_event list"

subsection \<open>Double-precision arithmetic\<close>

text \<open>
  JavaScript numbers are IEEE 754 doubles. A finite double is modelled by its value,
  a real number; \<open>None\<close> stands for a result that is not finite (an infinity or
  \<^verbatim>\<open>NaN\<close>).

  \<open>binade x\<close> is the exponent of \<open>x\<close>, the \<open>e\<close> with \<open>2 ^ e \<le> \<bar>x\<bar> < 2 ^ (e + 1)\<close>,
  computed from the bit length of the integer part of \<open>\<bar>x\<bar>\<close> or of \<open>1 / \<bar>x\<bar>\<close>.
\<close>

definition binade :: "real \<Rightarrow> int" where
  "binade x =
     (if 1 \<le> \<bar>x\<bar> then bitlen \<lfloor>\<bar>x\<bar>\<rfloor> - 1 else - bitlen (\<lceil>1 / \<bar>x\<bar>\<rceil> - 1))"

definition pow2 :: "int \<Rightarrow> real" where
  "pow2 e = (if 0 \<le> e then 2 ^ nat e else 1 / 2 ^ nat (- e))"

text \<open>Rounding to the nearest whole number, a tie to the even one.\<close>

definition round_even :: "real \<Rightarrow> int" where
  "round_even q =
     (let n = \<lfloor>q\<rfloor>; d = q - of_int n
      in if d < 1 / 2 then n
         else if 1 / 2 < d then n + 1
         else if even n then n else n + 1)"

text \<open>
  The double nearest to a real number (round to nearest, ties to even): doubles
  with exponent \<open>e\<close> are the multiples of \<open>2 ^ (e - 52)\<close>, those below \<open>2 ^ (- 1022)\<close> the
  multiples of \<open>2 ^ (- 1074)\<close>, and a result of \<open>2 ^ 1024\<close> or more is an infinity.
\<close>

definition fl64 :: "real \<Rightarrow> real option" where
  "fl64 x =
     (if x = 0 then Some 0
      else
        (let u = pow2 (max (binade x) (- 1022) - 52);
             y = of_int (round_even (x / u)) * u
         in if 2 ^ 1024 \<le> \<bar>y\<bar> then None else Some y))"

text \<open>
  The operations of line 94. \<^verbatim>\<open>*\<close> and \<^verbatim>\<open>+\<close> round the exact result; with an
  operand that is not finite the result is not finite. \<^verbatim>\<open>Math.pow\<close> of a finite base
  and a whole exponent is taken as the rounded exact power (it is exact whenever the
  power is a double, as every power of 2 below \<open>2 ^ 1024\<close> is). \<^verbatim>\<open>Math.round\<close> gives
  the nearest whole number, a half rounded up.
\<close>

definition fl_mul :: "real option \<Rightarrow> real option \<Rightarrow> real option" where
  "fl_mul a b =
     (case a of None \<Rightarrow> None
      | Some x \<Rightarrow> (case b of None \<Rightarrow> None | Some y \<Rightarrow> fl64 (x * y)))"

definition fl_add :: "real option \<Rightarrow> real option \<Rightarrow> real option" where
  "fl_add a b =
     (case a of None \<Rightarrow> None
      | Some x \<Rightarrow> (case b of None \<Rightarrow> None | Some y \<Rightarrow> fl64 (x + y)))"

definition Math_pow :: "real \<Rightarrow> nat \<Rightarrow> real option" where
  "Math_pow x n = fl64 (x ^ n)"

definition Math_round :: "real option \<Rightarrow> int option" where
  "Math_round a = (case a of None \<Rightarrow> None | Some x \<Rightarrow> Some (round x))"

text \<open>
  \<^verbatim>\<open>Math.round(baseDelay * Math.pow(factor, attempt - 1) + Math.random() * 200)\<close>
  (line 94), with the double \<open>r\<close> that \<^verbatim>\<open>Math.random()\<close> returned as an argument.
  \<open>baseDelay\<close> and \<open>factor\<close> are whole numbers that doubles hold exactly (400 and 2
  at the call site). The result is \<open>None\<close> when the delay is not finite.
\<close>

definition backoff_delay :: "nat \<Rightarrow> nat \<Rightarrow> nat \<Rightarrow> real \<Rightarrow> int option" where
  "backoff_delay baseDelay factor attempt r =
     Math_round
       (fl_add (fl_mul (Some (real baseDelay)) (Math_pow (real factor) (attempt - 1)))
          (fl_mul (Some r) (Some 200)))"

text \<open>
  The time a Node timer takes when asked for a delay: a delay that is not a
  number, is below 1 or is above 2147483647 is set to 1 millisecond.
\<close>

definition timer_ms :: "int option \<Rightarrow> nat" where
  "timer_ms delay =
     (case delay of None \<Rightarrow> 1
      | Some n \<Rightarrow> if n < 1 \<or> 2147483647 < n then 1 else nat n)"

text \<open>
  The object handed to \<^verbatim>\<open>onRetry\<close>:
  \<^verbatim>\<open>{ attempt, status, code, delay, message: err?.message }\<close>.
\<close>

definition retry_event_of :: "nat \<Rightarrow> nat \<Rightarrow> (nat \<Rightarrow> real) \<Rightarrow> nat \<Rightarrow> err \<Rightarrow> retry_event" where
  "retry_event_of baseDelay factor rnd attempt e =
     \<lparr>ev_attempt = attempt, ev_status = status_of e, ev_code = err_code e,
      ev_delay = backoff_delay baseDelay factor attempt (rnd attempt),
      ev_message = err_message e\<rparr>"

text \<open>
  The loop of \<^verbatim>\<open>withRetry\<close> (lines 76-98). \<open>fn k\<close> is the promise that the
  \<open>(k+1)\<close>-th invocation of \<^verbatim>\<open>fn\<close> returns, its time counted from that invocation;
  \<open>rnd a\<close> is what \<^verbatim>\<open>Math.random()\<close> returns in the handler of failed attempt \<open>a\<close>.
  At the head of the loop \<open>attempt\<close> failures have been counted, which is also the
  number of invocations made so far, and \<open>now\<close> milliseconds have passed since
  \<^verbatim>\<open>withRetry\<close> was called. \<^verbatim>\<open>await sleep(delay)\<close> is a timer asked for \<open>delay\<close>.
\<close>

function withRetry_loop ::
  "(nat \<Rightarrow> 'a promise) \<Rightarrow> nat \<Rightarrow> nat \<Rightarrow> nat \<Rightarrow> (nat \<Rightarrow> real) \<Rightarrow>
   nat \<Rightarrow> nat \<Rightarrow> retry_event list \<Rightarrow> 'a retry_result"
where
  "withRetry_loop fn retries baseDelay factor rnd attempt now evs =
     (case fn attempt of
        Pending \<Rightarrow> \<lparr>settled = Pending, calls = Suc attempt, events = evs\<rparr>
      | Settled d (Inr v) \<Rightarrow>
          \<lparr>settled = Settled (now + d) (Inr v), calls = Suc attempt, events = evs\<rparr>
      | Settled d (Inl e) \<Rightarrow>
          (if \<not> retriable e \<or> Suc attempt > retries
           then \<lparr>settled = Settled (now + d) (Inl e), calls = Suc attempt, events = evs\<rparr>
           else
             (let ev = retry_event_of baseDelay factor rnd (Suc attempt) e
              in withRetry_loop fn retries baseDelay factor rnd (Suc attempt)
                   (now + d + timer_ms (ev_delay ev)) (evs @ [ev]))))"
  by pat_completeness auto
termination
  by (relation "measure (\<lambda>(fn, retries, baseDelay, factor, rnd, attempt, now, evs).
        Suc retries - attempt)") auto

text \<open>\<^verbatim>\<open>async function withRetry(fn, { retries, baseDelay, factor, onRetry })\<close>.\<close>

definition withRetry ::
  "(nat \<Rightarrow> 'a promise) \<Rightarrow> nat \<Rightarrow> nat \<Rightarrow> nat \<Rightarrow> (nat \<Rightarrow> real) \<Rightarrow> 'a retry_result" where
  "withRetry fn retries baseDelay factor rnd =
     withRetry_loop fn retries baseDelay factor rnd 0 0 []"

text \<open>
  How long an attempt takes, and how long the whole sequence of a run takes: its
  attempts plus its backoff sleeps.
\<close>

fun duration :: "'a promise \<Rightarrow> nat" where
  "duration Pending = 0"
| "duration (Settled d x) = d"

definition sequence_time :: "(nat \<Rightarrow> 'a promise) \<Rightarrow> 'a retry_result \<Rightarrow> nat" where
  "sequence_time fn r =
     (\<Sum>k<calls r. duration (fn k)) + (\<Sum>ev\<leftarrow>events r. timer_ms (ev_delay ev))"

section \<open>withTimeout\<close>

text \<open>Decimal text of a number, as a template literal prints it.\<close>

fun show_nat :: "nat \<Rightarrow> string" where
  "show_nat n =
     (if n < 10 then [''0123456789'' ! n]
      else show_nat (n div 10) @ [''0123456789'' ! (n mod 10)])"

definition show_int :: "int \<Rightarrow> string" where
  "show_int i = (if i < 0 then ''-'' @ show_nat (nat (- i)) else show_nat (nat i))"

text \<open>
  \<^verbatim>\<open>new Error(`Client timeout after ${ms}ms`)\<close> (line 104): an error with a message
  and no status, response or code. The spec calls it \<open>ClientTimeout\<close>.
\<close>

definition ClientTimeout :: "nat \<Rightarrow> err" where
  "ClientTimeout ms =
     \<lparr>err_status = None, err_response_status = None, err_response_data = None,
      err_code = None,
      err_message = Some (''Client timeout after '' @ show_nat ms @ ''ms'')\<rparr>"

text \<open>
  The timers that \<^verbatim>\<open>withTimeout\<close> holds: \<^verbatim>\<open>setTimeout\<close> hands out a fresh handle
  and keeps it active, \<^verbatim>\<open>clearTimeout\<close> releases it (a handle that has fired or was
  cleared before is not active, and clearing it again changes nothing).
\<close>

record timers =
  next_handle :: nat
  active :: "nat list"

definition setTimeout :: "timers \<Rightarrow> nat \<times> timers" where
  "setTimeout ts =
     (next_handle ts,
      ts\<lparr>next_handle := Suc (next_handle ts), active := next_handle ts # active ts\<rparr>)"

definition clearTimeout :: "nat \<Rightarrow> timers \<Rightarrow> timers" where
  "clearTimeout h ts = ts\<lparr>active := removeAll h (active ts)\<rparr>"

text \<open>
  \<^verbatim>\<open>Promise.race([p, q])\<close>: the promise that settles first decides. When both settle
  in the same millisecond the order in which the event loop runs their callbacks
  decides, which the program does not control: \<open>second_first\<close> says that \<open>q\<close> won.
\<close>

fun Promise_race :: "bool \<Rightarrow> 'a promise \<Rightarrow> 'a promise \<Rightarrow> 'a promise" where
  "Promise_race second_first Pending q = q"
| "Promise_race second_first (Settled t x) Pending = Settled t x"
| "Promise_race second_first (Settled t x) (Settled u y) =
     (if t < u then Settled t x
      else if u < t then Settled u y
      else if second_first then Settled u y else Settled t x)"

text \<open>
  \<^verbatim>\<open>async function withTimeout(promise, ms)\<close> (lines 101-111): the timer is set, the
  race is awaited, and the \<^verbatim>\<open>finally\<close> block clears the timer on either exit. The
  timer is asked for \<open>ms\<close> and rejects when it fires, with the message that names
  \<open>ms\<close>.
\<close>

definition withTimeout ::
  "'a promise \<Rightarrow> nat \<Rightarrow> bool \<Rightarrow> timers \<Rightarrow> 'a promise \<times> timers" where
  "withTimeout promise ms timer_first ts =
     (let (timer, ts1) = setTimeout ts;
          timeoutPromise = Settled (timer_ms (Some (int ms))) (Inl (ClientTimeout ms));
          result = Promise_race timer_first promise timeoutPromise
      in (result, clearTimeout timer ts1))"

section \<open>Configuration, conversation and the upstream call\<close>

text \<open>
  The constants of lines 34-39 that the route reads, fixed at start. The three
  numbers are counts and milliseconds: natural numbers.
\<close>

record config =
  GPT_MODE :: string
  HISTORY_LENGTH :: nat
  OPENAI_MODEL :: string
  FALLBACK_MODEL :: string
  OPENAI_RETRIES :: nat
  OPENAI_TIMEOUT_MS :: nat

datatype role = System | User | Assistant

record exchange =
  role :: role
  content :: string

text \<open>The argument of \<^verbatim>\<open>callOpenAIChat\<close>.\<close>

record request =
  model :: string
  msgArray :: "exchange list"
  temperature :: real
  maxTokens :: nat

text \<open>
  A completion, as far as the route reads it: for each choice the \<^verbatim>\<open>content\<close> of
  its message, \<open>None\<close> when the field is missing.
\<close>

record completion =
  choices :: "string option list"

text \<open>
  What the outside does during one \<^verbatim>\<open>callOpenAIChat\<close>: the promise that each
  \<^verbatim>\<open>openai.chat.completions.create\<close> returns, the values of \<^verbatim>\<open>Math.random()\<close>,
  and who wins a tie between the timer and the call. The world gives this for
  every request.
\<close>

record call_env =
  attempts :: "nat \<Rightarrow> completion promise"
  randoms :: "nat \<Rightarrow> real"
  timer_first :: bool

type_synonym world = "request \<Rightarrow> call_env"

text \<open>
  \<^verbatim>\<open>callOpenAIChat\<close> (lines 151-177): \<^verbatim>\<open>withTimeout(withRetry(...), OPENAI_TIMEOUT_MS)\<close>
  with \<^verbatim>\<open>retries: OPENAI_RETRIES, baseDelay: 400, factor: 2\<close>.
\<close>

definition callOpenAIChat ::
  "config \<Rightarrow> world \<Rightarrow> request \<Rightarrow> timers \<Rightarrow> completion promise \<times> timers" where
  "callOpenAIChat cfg w req ts =
     withTimeout
       (settled (withRetry (attempts (w req)) (OPENAI_RETRIES cfg) 400 2 (randoms (w req))))
       (OPENAI_TIMEOUT_MS cfg) (timer_first (w req)) ts"

text \<open>
  \<^verbatim>\<open>String.prototype.trim\<close>. A \<open>char\<close> stands for a code unit below 256; of those
  the white space and line terminators are 9 to 13, 32 and 160.
\<close>

definition js_space :: "char \<Rightarrow> bool" where
  "js_space c = (of_char c \<in> {9, 10, 11, 12, 13, 32, 160 :: nat})"

definition js_trim :: "string \<Rightarrow> string" where
  "js_trim s = rev (dropWhile js_space (rev (dropWhile js_space s)))"

text \<open>
  \<^verbatim>\<open>String(response?.choices?.[0]?.message?.content || '').trim()\<close> (lines 237, 274).
\<close>

definition agent_response_of :: "completion \<Rightarrow> string" where
  "agent_response_of response =
     js_trim (case choices response of [] \<Rightarrow> [] | None # _ \<Rightarrow> [] | Some c # _ \<Rightarrow> c)"

text \<open>\<^verbatim>\<open>function trimForTwitch(text)\<close> (lines 179-184).\<close>

definition trimForTwitch :: "string \<Rightarrow> string" where
  "trimForTwitch text =
     (if text = [] then []
      else if length text \<le> 1000 then text
      else take 1000 text)"

text \<open>\<^verbatim>\<open>Array.prototype.splice(start, deleteCount)\<close> with \<open>start\<close> inside the array.\<close>

definition splice :: "nat \<Rightarrow> nat \<Rightarrow> 'a list \<Rightarrow> 'a list" where
  "splice start deleteCount xs = take start xs @ drop (start + deleteCount) xs"

section \<open>The route \<^verbatim>\<open>/gpt/:text\<close>\<close>

text \<open>
  The process state the route touches: \<^verbatim>\<open>messages\<close> and \<^verbatim>\<open>file_context\<close>
  (lines 115-116), and the timers.
\<close>

record state =
  messages :: "exchange list"
  file_context :: string
  timer_table :: timers

definition initial_state :: state where
  "initial_state =
     \<lparr>messages = [\<lparr>role = System, content = ''You are a helpful Twitch Chatbot.''\<rparr>],
      file_context = ''You are a helpful Twitch Chatbot.'',
      timer_table = \<lparr>next_handle = 0, active = []\<rparr>\<rparr>"

record http_response =
  http_status :: int
  body :: string

text \<open>Awaiting a promise that was created \<open>t\<close> milliseconds in.\<close>

fun later :: "nat \<Rightarrow> 'a promise \<Rightarrow> 'a promise" where
  "later t Pending = Pending"
| "later t (Settled u x) = Settled (t + u) x"

text \<open>
  The primary call and its \<^verbatim>\<open>catch\<close> (lines 212-235 in CHAT mode, the same block at
  lines 244-272 in PROMPT mode). \<open>mk\<close> builds the request for a model; \<open>invoked\<close>
  lists the models \<^verbatim>\<open>callOpenAIChat\<close> was called with, in order.
\<close>

record fallback_result =
  outcome :: "completion promise"
  invoked :: "string list"
  timers_after :: timers

definition call_with_fallback ::
  "config \<Rightarrow> world \<Rightarrow> (string \<Rightarrow> request) \<Rightarrow> timers \<Rightarrow> fallback_result" where
  "call_with_fallback cfg w mk ts =
     (let primaryModel = OPENAI_MODEL cfg;
          fallbackModel = FALLBACK_MODEL cfg;
          (p, ts1) = callOpenAIChat cfg w (mk primaryModel) ts
      in case p of
           Pending \<Rightarrow> \<lparr>outcome = Pending, invoked = [primaryModel], timers_after = ts1\<rparr>
         | Settled t (Inr response) \<Rightarrow>
             \<lparr>outcome = Settled t (Inr response), invoked = [primaryModel],
              timers_after = ts1\<rparr>
         | Settled t (Inl e) \<Rightarrow>
             (if fallbackModel \<noteq> [] \<and> fallbackModel \<noteq> primaryModel
              then (let (q, ts2) = callOpenAIChat cfg w (mk fallbackModel) ts1
                    in \<lparr>outcome = later t q, invoked = [primaryModel, fallbackModel],
                        timers_after = ts2\<rparr>)
              else \<lparr>outcome = Settled t (Inl e), invoked = [primaryModel],
                    timers_after = ts1\<rparr>))"

text \<open>
  Lines 201-209: the user message is pushed, then, when the array is longer than
  \<^verbatim>\<open>(HISTORY_LENGTH * 2) + 1\<close>, \<^verbatim>\<open>messages.splice(1, 2)\<close>.
\<close>

definition push_user :: "nat \<Rightarrow> string \<Rightarrow> exchange list \<Rightarrow> exchange list" where
  "push_user history_length text msgs =
     (let msgs1 = msgs @ [\<lparr>role = User, content = text\<rparr>];
          maxLen = history_length * 2 + 1
      in if length msgs1 > maxLen then splice 1 2 msgs1 else msgs1)"

definition chat_request :: "exchange list \<Rightarrow> string \<Rightarrow> request" where
  "chat_request msgs m =
     \<lparr>model = m, msgArray = msgs, temperature = 1 / 2, maxTokens = 592\<rparr>"

text \<open>
  \<^verbatim>\<open>const promptAsSingleMessage = `${file_context}\n\nQ: ${text}\nA:`;\<close> and the
  two-message request of PROMPT mode.
\<close>

definition promptAsSingleMessage :: "string \<Rightarrow> string \<Rightarrow> string" where
  "promptAsSingleMessage ctx text =
     ctx @ [CHR 0x0A, CHR 0x0A] @ ''Q: '' @ text @ [CHR 0x0A] @ ''A:''"

definition prompt_request :: "string \<Rightarrow> string \<Rightarrow> string \<Rightarrow> request" where
  "prompt_request ctx text m =
     \<lparr>model = m,
      msgArray = [\<lparr>role = System, content = ''You are a helpful Twitch Chatbot.''\<rparr>,
                  \<lparr>role = User, content = promptAsSingleMessage ctx text\<rparr>],
      temperature = 1 / 2, maxTokens = 256\<rparr>"

text \<open>\<^verbatim>\<open>a || b\<close> on optional strings: \<^verbatim>\<open>undefined\<close> and the empty string are falsy.\<close>

definition js_or_str :: "string option \<Rightarrow> string option \<Rightarrow> string option" where
  "js_or_str a b = (case a of None \<Rightarrow> b | Some s \<Rightarrow> if s = [] then b else Some s)"

text \<open>
  The \<^verbatim>\<open>catch\<close> of the route (lines 284-302): \<open>detail\<close>, \<open>httpStatus\<close> and the body
  \<^verbatim>\<open>`AI backend temporarily unavailable (status=${status || httpStatus}). Details: ${detail}`\<close>.
\<close>

text \<open>
  \<^verbatim>\<open>err?.response?.data && JSON.stringify(err.response.data)\<close> (line 287): the JSON
  text when the data is there and truthy, a falsy value otherwise.
\<close>

definition stringified_data :: "err \<Rightarrow> string option" where
  "stringified_data e =
     (case err_response_data e of
        None \<Rightarrow> None
      | Some d \<Rightarrow> if data_truthy d then data_json d else None)"

definition detail_of :: "err \<Rightarrow> string" where
  "detail_of e =
     (case js_or_str (js_or_str (stringified_data e) (err_message e)) (Some ''Unknown error'') of
        None \<Rightarrow> [] | Some d \<Rightarrow> d)"

definition httpStatus_of :: "err \<Rightarrow> int" where
  "httpStatus_of e = (if has [429, 500, 502, 503, 504] (status_of e) then 503 else 500)"

definition failure_body :: "err \<Rightarrow> string" where
  "failure_body e =
     ''AI backend temporarily unavailable (status=''
       @ (case js_or_num (status_of e) (Some (httpStatus_of e)) of
            None \<Rightarrow> [] | Some n \<Rightarrow> show_int n)
       @ ''). Details: '' @ detail_of e"

text \<open>
  \<open>headersSent\<close> is \<^verbatim>\<open>res.headersSent\<close> when the route comes to answer: true when the
  response timeout of lines 46-52 has answered 504 before.
\<close>

definition catch_handler :: "err \<Rightarrow> bool \<Rightarrow> http_response option" where
  "catch_handler e headersSent =
     (if \<not> headersSent
      then Some \<lparr>http_status = httpStatus_of e, body = failure_body e\<rparr>
      else None)"

text \<open>
  Lines 278-282. With the headers sent already \<^verbatim>\<open>res.set\<close> throws, the \<^verbatim>\<open>catch\<close>
  finds \<^verbatim>\<open>res.headersSent\<close> true and sends nothing.
\<close>

definition send_ok :: "string \<Rightarrow> bool \<Rightarrow> http_response option" where
  "send_ok agent_response headersSent =
     (if headersSent then None
      else Some \<lparr>http_status = 200, body = trimForTwitch agent_response\<rparr>)"

text \<open>
  One run of the route: the response it sends (if any), the state it leaves, the
  reply it got from upstream (if any) and the models it called.
\<close>

record handler_result =
  sent :: "http_response option"
  new_state :: state
  reply :: "string option"
  models_called :: "string list"

definition handler :: "config \<Rightarrow> world \<Rightarrow> bool \<Rightarrow> string \<Rightarrow> state \<Rightarrow> handler_result" where
  "handler cfg w headersSent text st =
     (if GPT_MODE cfg = ''CHAT'' then
        (let msgs = push_user (HISTORY_LENGTH cfg) text (messages st);
             r = call_with_fallback cfg w (chat_request msgs) (timer_table st)
         in case outcome r of
              Settled t (Inr response) \<Rightarrow>
                (let agent_response = agent_response_of response
                 in \<lparr>sent = send_ok agent_response headersSent,
                     new_state = st\<lparr>messages :=
                         msgs @ [\<lparr>role = Assistant, content = agent_response\<rparr>],
                       timer_table := timers_after r\<rparr>,
                     reply = Some agent_response, models_called = invoked r\<rparr>)
            | Settled t (Inl e) \<Rightarrow>
                \<lparr>sent = catch_handler e headersSent,
                 new_state = st\<lparr>messages := msgs, timer_table := timers_after r\<rparr>,
                 reply = None, models_called = invoked r\<rparr>
            | Pending \<Rightarrow>
                \<lparr>sent = None,
                 new_state = st\<lparr>messages := msgs, timer_table := timers_after r\<rparr>,
                 reply = None, models_called = invoked r\<rparr>)
      else
        (let r = call_with_fallback cfg w (prompt_request (file_context st) text)
                   (timer_table st)
         in case outcome r of
              Settled t (Inr response) \<Rightarrow>
                (let agent_response = agent_response_of response
                 in \<lparr>sent = send_ok agent_response headersSent,
                     new_state = st\<lparr>timer_table := timers_after r\<rparr>,
                     reply = Some agent_response, models_called = invoked r\<rparr>)
            | Settled t (Inl e) \<Rightarrow>
                \<lparr>sent = catch_handler e headersSent,
                 new_state = st\<lparr>timer_table := timers_after r\<rparr>,
                 reply = None, models_called = invoked r\<rparr>
            | Pending \<Rightarrow>
                \<lparr>sent = None, new_state = st\<lparr>timer_table := timers_after r\<rparr>,
                 reply = None, models_called = invoked r\<rparr>))"

text \<open>
  The request that the route builds for a model, and its call with fallback: the
  CHAT branch sends the messages as they are after the push, the PROMPT branch its
  two fixed messages.
\<close>

definition route_request :: "config \<Rightarrow> string \<Rightarrow> state \<Rightarrow> string \<Rightarrow> request" where
  "route_request cfg text st =
     (if GPT_MODE cfg = ''CHAT''
      then chat_request (push_user (HISTORY_LENGTH cfg) text (messages st))
      else prompt_request (file_context st) text)"

definition route_call :: "config \<Rightarrow> world \<Rightarrow> string \<Rightarrow> state \<Rightarrow> fallback_result" where
  "route_call cfg w text st =
     call_with_fallback cfg w (route_request cfg text st) (timer_table st)"

text \<open>
  Requests handled one after the other, each with its text, its world and its
  \<open>headersSent\<close>; and the (query, reply) pairs of such a run when every request got
  a reply.
\<close>

fun handle_all :: "config \<Rightarrow> (string \<times> world \<times> bool) list \<Rightarrow> state \<Rightarrow> state" where
  "handle_all cfg [] st = st"
| "handle_all cfg ((text, w, hs) # cs) st =
     handle_all cfg cs (new_state (handler cfg w hs text st))"

fun transcript ::
  "config \<Rightarrow> (string \<times> world \<times> bool) list \<Rightarrow> state \<Rightarrow> (string \<times> string) list option" where
  "transcript cfg [] st = Some []"
| "transcript cfg ((text, w, hs) # cs) st =
     (case reply (handler cfg w hs text st) of
        None \<Rightarrow> None
      | Some a \<Rightarrow>
          (case transcript cfg cs (new_state (handler cfg w hs text st)) of
             None \<Rightarrow> None
           | Some ps \<Rightarrow> Some ((text, a) # ps)))"

definition pair_of :: "string \<times> string \<Rightarrow> exchange list" where
  "pair_of p = [\<lparr>role = User, content = fst p\<rparr>, \<lparr>role = Assistant, content = snd p\<rparr>]"

section \<open>Example inputs\<close>

text \<open>The defaults of lines 34-39, with the history length left open.\<close>

definition default_config :: "nat \<Rightarrow> config" where
  "default_config h =
     \<lparr>GPT_MODE = ''CHAT'', HISTORY_LENGTH = h, OPENAI_MODEL = ''gpt-5'',
      FALLBACK_MODEL = ''gpt-5-mini'', OPENAI_RETRIES = 3, OPENAI_TIMEOUT_MS = 20000\<rparr>"

definition upstream_error :: "int \<Rightarrow> err" where
  "upstream_error s =
     \<lparr>err_status = Some s, err_response_status = None, err_response_data = None,
      err_code = None, err_message = Some ''upstream''\<rparr>"

definition replying :: "nat \<Rightarrow> string \<Rightarrow> call_env" where
  "replying d c =
     \<lparr>attempts = (\<lambda>k. Settled d (Inr \<lparr>choices = [Some c]\<rparr>)),
      randoms = (\<lambda>k. 0), timer_first = False\<rparr>"

definition failing :: "nat \<Rightarrow> err \<Rightarrow> call_env" where
  "failing d e =
     \<lparr>attempts = (\<lambda>k. Settled d (Inl e)), randoms = (\<lambda>k. 0), timer_first = False\<rparr>"

section \<open>Properties of withRetry\<close>

declare withRetry_loop.simps [simp del]
declare show_nat.simps [simp del]

text \<open>One iteration of the loop, by what the attempt did.\<close>

lemma loop_pending:
  "fn attempt = Pending \<Longrightarrow>
   withRetry_loop fn R b f rnd attempt now evs =
     \<lparr>settled = Pending, calls = Suc attempt, events = evs\<rparr>"
  by (subst withRetry_loop.simps) simp

lemma loop_success:
  "fn attempt = Settled d (Inr v) \<Longrightarrow>
   withRetry_loop fn R b f rnd attempt now evs =
     \<lparr>settled = Settled (now + d) (Inr v), calls = Suc attempt, events = evs\<rparr>"
  by (subst withRetry_loop.simps) simp

lemma loop_throw:
  "fn attempt = Settled d (Inl e) \<Longrightarrow> \<not> retriable e \<or> R < Suc attempt \<Longrightarrow>
   withRetry_loop fn R b f rnd attempt now evs =
     \<lparr>settled = Settled (now + d) (Inl e), calls = Suc attempt, events = evs\<rparr>"
  by (subst withRetry_loop.simps) auto

lemma loop_retry:
  "fn attempt = Settled d (Inl e) \<Longrightarrow> retriable e \<Longrightarrow> Suc attempt \<le> R \<Longrightarrow>
   withRetry_loop fn R b f rnd attempt now evs =
     withRetry_loop fn R b f rnd (Suc attempt)
       (now + d + timer_ms (ev_delay (retry_event_of b f rnd (Suc attempt) e)))
       (evs @ [retry_event_of b f rnd (Suc attempt) e])"
  by (subst withRetry_loop.simps) (simp add: Let_def)

lemma loop_cases:
  obtains (pending) "fn attempt = Pending"
  | (success) d v where "fn attempt = Settled d (Inr v)"
  | (throw) d e where "fn attempt = Settled d (Inl e)" "\<not> retriable e \<or> R < Suc attempt"
  | (retry) d e where "fn attempt = Settled d (Inl e)" "retriable e" "Suc attempt \<le> R"
proof (cases "fn attempt")
  case Pending
  then show ?thesis by (rule pending)
next
  case (Settled d x)
  then show ?thesis
    by (cases x; cases "retriable (projl x)"; cases "Suc attempt \<le> R")
       (auto intro: success throw retry)
qed

text \<open>
  An invariant of the loop carries over to its result: \<open>P attempt now evs\<close> at the
  head of each iteration, \<open>Q\<close> of what the last iteration returns.
\<close>

lemma loop_rule:
  assumes start: "P attempt now evs"
    and step: "\<And>a t es d e. P a t es \<Longrightarrow> fn a = Settled d (Inl e) \<Longrightarrow> retriable e \<Longrightarrow>
        Suc a \<le> R \<Longrightarrow>
        P (Suc a) (t + d + timer_ms (ev_delay (retry_event_of b f rnd (Suc a) e)))
          (es @ [retry_event_of b f rnd (Suc a) e])"
    and pend: "\<And>a t es. P a t es \<Longrightarrow> fn a = Pending \<Longrightarrow>
        Q \<lparr>settled = Pending, calls = Suc a, events = es\<rparr>"
    and succ: "\<And>a t es d v. P a t es \<Longrightarrow> fn a = Settled d (Inr v) \<Longrightarrow>
        Q \<lparr>settled = Settled (t + d) (Inr v), calls = Suc a, events = es\<rparr>"
    and thrw: "\<And>a t es d e. P a t es \<Longrightarrow> fn a = Settled d (Inl e) \<Longrightarrow>
        \<not> retriable e \<or> R < Suc a \<Longrightarrow>
        Q \<lparr>settled = Settled (t + d) (Inl e), calls = Suc a, events = es\<rparr>"
  shows "Q (withRetry_loop fn R b f rnd attempt now evs)"
  using start
proof (induction "Suc R - attempt" arbitrary: attempt now evs rule: less_induct)
  case less
  show ?case
  proof (cases rule: loop_cases[where fn = fn and attempt = attempt and R = R])
    case pending
    then show ?thesis using pend[OF less.prems] by (simp add: loop_pending)
  next
    case (success d v)
    then show ?thesis using succ[OF less.prems] by (simp add: loop_success)
  next
    case (throw d e)
    then show ?thesis using thrw[OF less.prems] by (simp add: loop_throw)
  next
    case (retry d e)
    have "Q (withRetry_loop fn R b f rnd (Suc attempt)
            (now + d + timer_ms (ev_delay (retry_event_of b f rnd (Suc attempt) e)))
            (evs @ [retry_event_of b f rnd (Suc attempt) e]))"
    proof (rule less.hyps)
      show "Suc R - Suc attempt < Suc R - attempt" using retry(3) by simp
      show "P (Suc attempt)
              (now + d + timer_ms (ev_delay (retry_event_of b f rnd (Suc attempt) e)))
              (evs @ [retry_event_of b f rnd (Suc attempt) e])"
        using less.prems retry by (rule step)
    qed
    then show ?thesis by (simp add: loop_retry[of fn attempt, OF retry])
  qed
qed

lemma loop_calls_lower: "Suc attempt \<le> calls (withRetry_loop fn R b f rnd attempt now evs)"
  by (rule loop_rule[where P = "\<lambda>a t es. attempt \<le> a"]) simp_all

lemma loop_calls_upper:
  "attempt \<le> R \<Longrightarrow> calls (withRetry_loop fn R b f rnd attempt now evs) \<le> Suc R"
  by (rule loop_rule[where P = "\<lambda>a t es. a \<le> R"]) simp_all

lemma loop_outcome_last:
  "outcome_of (settled (withRetry_loop fn R b f rnd attempt now evs)) =
   outcome_of (fn (calls (withRetry_loop fn R b f rnd attempt now evs) - 1))"
  by (rule loop_rule[where P = "\<lambda>a t es. True"
        and Q = "\<lambda>r. outcome_of (settled r) = outcome_of (fn (calls r - 1))"]) simp_all

lemma loop_earlier_failed:
  "\<forall>j. attempt \<le> j \<and> Suc j < calls (withRetry_loop fn R b f rnd attempt now evs) \<longrightarrow>
     (\<exists>d e. fn j = Settled d (Inl e) \<and> retriable e)"
proof (rule loop_rule[where
      P = "\<lambda>a t es. \<forall>j. attempt \<le> j \<and> j < a \<longrightarrow> (\<exists>d e. fn j = Settled d (Inl e) \<and> retriable e)"
      and Q = "\<lambda>r. \<forall>j. attempt \<le> j \<and> Suc j < calls r \<longrightarrow>
                 (\<exists>d e. fn j = Settled d (Inl e) \<and> retriable e)"])
  fix a t es d e
  assume "\<forall>j. attempt \<le> j \<and> j < a \<longrightarrow> (\<exists>d e. fn j = Settled d (Inl e) \<and> retriable e)"
    and "fn a = Settled d (Inl e)" and "retriable e"
  then show "\<forall>j. attempt \<le> j \<and> j < Suc a \<longrightarrow> (\<exists>d e. fn j = Settled d (Inl e) \<and> retriable e)"
    by (auto simp: less_Suc_eq)
qed auto

lemma loop_first_success:
  assumes "attempt \<le> k" "k \<le> R" "fn k = Settled d (Inr v)"
    and "\<And>j. attempt \<le> j \<Longrightarrow> j < k \<Longrightarrow> \<exists>d e. fn j = Settled d (Inl e) \<and> retriable e"
  shows "calls (withRetry_loop fn R b f rnd attempt now evs) = Suc k \<and>
         outcome_of (settled (withRetry_loop fn R b f rnd attempt now evs)) = Some (Inr v)"
proof (rule loop_rule[where P = "\<lambda>a t es. attempt \<le> a \<and> a \<le> k"
      and Q = "\<lambda>r. calls r = Suc k \<and> outcome_of (settled r) = Some (Inr v)"])
  show "attempt \<le> attempt \<and> attempt \<le> k" using assms(1) by simp
next
  fix a t es d' e
  assume a: "attempt \<le> a \<and> a \<le> k" and f: "fn a = Settled d' (Inl e)"
  with assms(3) have "a \<noteq> k" by auto
  with a show "attempt \<le> Suc a \<and> Suc a \<le> k" by simp
next
  fix a t es
  assume a: "attempt \<le> a \<and> a \<le> k" and f: "fn a = Pending"
  with assms(3) assms(4)[of a] have False by (cases "a = k") auto
  then show "calls \<lparr>settled = Pending, calls = Suc a, events = es\<rparr> = Suc k \<and>
      outcome_of (settled \<lparr>settled = Pending, calls = Suc a, events = es\<rparr>) = Some (Inr v)" ..
next
  fix a t es d' v'
  assume a: "attempt \<le> a \<and> a \<le> k" and f: "fn a = Settled d' (Inr v')"
  with assms(3) assms(4)[of a] have "a = k \<and> v' = v" by (cases "a = k") auto
  then show "calls \<lparr>settled = Settled (t + d') (Inr v'), calls = Suc a, events = es\<rparr> = Suc k \<and>
      outcome_of (settled \<lparr>settled = Settled (t + d') (Inr v'), calls = Suc a, events = es\<rparr>)
        = Some (Inr v)" by simp
next
  fix a t es d' e
  assume a: "attempt \<le> a \<and> a \<le> k" and f: "fn a = Settled d' (Inl e)"
    and n: "\<not> retriable e \<or> R < Suc a"
  from f assms(3) have "a \<noteq> k" by auto
  with a have "a < k" by simp
  with a f n assms(2) assms(4)[of a] have False by auto
  then show "calls \<lparr>settled = Settled (t + d') (Inl e), calls = Suc a, events = es\<rparr> = Suc k \<and>
      outcome_of (settled \<lparr>settled = Settled (t + d') (Inl e), calls = Suc a, events = es\<rparr>)
        = Some (Inr v)" ..
qed

lemma loop_all_fail:
  assumes "attempt \<le> R"
    and "\<And>j. attempt \<le> j \<Longrightarrow> j \<le> R \<Longrightarrow> \<exists>d e. fn j = Settled d (Inl e) \<and> retriable e"
  shows "calls (withRetry_loop fn R b f rnd attempt now evs) = Suc R"
proof (rule loop_rule[where P = "\<lambda>a t es. attempt \<le> a \<and> a \<le> R"
      and Q = "\<lambda>r. calls r = Suc R"])
  show "attempt \<le> attempt \<and> attempt \<le> R" using assms(1) by simp
next
  fix a t es
  assume "attempt \<le> a \<and> a \<le> R" and "fn a = Pending"
  with assms(2)[of a] show "calls \<lparr>settled = Pending, calls = Suc a, events = es\<rparr> = Suc R"
    by auto
next
  fix a t es d v
  assume "attempt \<le> a \<and> a \<le> R" and "fn a = Settled d (Inr v)"
  with assms(2)[of a]
  show "calls \<lparr>settled = Settled (t + d) (Inr v), calls = Suc a, events = es\<rparr> = Suc R"
    by auto
next
  fix a t es d e
  assume "attempt \<le> a \<and> a \<le> R" and "fn a = Settled d (Inl e)" and "\<not> retriable e \<or> R < Suc a"
  with assms(2)[of a]
  show "calls \<lparr>settled = Settled (t + d) (Inl e), calls = Suc a, events = es\<rparr> = Suc R"
    by auto
qed simp

lemma outcome_of_SomeD: "outcome_of p = Some x \<Longrightarrow> \<exists>t. p = Settled t x"
  by (cases p) auto


lemma loop_events:
  assumes "\<forall>ev\<in>set evs. 1 \<le> ev_attempt ev \<and> ev_attempt ev \<le> R \<and>
             ev_delay ev = backoff_delay b f (ev_attempt ev) (rnd (ev_attempt ev))"
  shows "\<forall>ev\<in>set (events (withRetry_loop fn R b f rnd attempt now evs)).
           1 \<le> ev_attempt ev \<and> ev_attempt ev \<le> R \<and>
           ev_delay ev = backoff_delay b f (ev_attempt ev) (rnd (ev_attempt ev))"
  by (rule loop_rule[where P = "\<lambda>a t es. \<forall>ev\<in>set es. 1 \<le> ev_attempt ev \<and> ev_attempt ev \<le> R \<and>
             ev_delay ev = backoff_delay b f (ev_attempt ev) (rnd (ev_attempt ev))"])
     (use assms in \<open>auto simp: retry_event_of_def\<close>)

lemma loop_event_attempts:
  "map ev_attempt (events (withRetry_loop fn R b f rnd attempt now evs)) =
   map ev_attempt evs @ [Suc attempt..<calls (withRetry_loop fn R b f rnd attempt now evs)]"
  by (rule loop_rule[where P = "\<lambda>a t es. attempt \<le> a \<and>
        map ev_attempt es = map ev_attempt evs @ [Suc attempt..<Suc a]"
      and Q = "\<lambda>r. map ev_attempt (events r) = map ev_attempt evs @ [Suc attempt..<calls r]"])
     (auto simp: retry_event_of_def)

lemma loop_time:
  assumes "now = (\<Sum>k<attempt. duration (fn k)) + (\<Sum>ev\<leftarrow>evs. timer_ms (ev_delay ev))"
  shows "settled (withRetry_loop fn R b f rnd attempt now evs) = Pending \<or>
         (\<exists>x. settled (withRetry_loop fn R b f rnd attempt now evs) =
            Settled (sequence_time fn (withRetry_loop fn R b f rnd attempt now evs)) x)"
  by (rule loop_rule[where P = "\<lambda>a t es.
        t = (\<Sum>k<a. duration (fn k)) + (\<Sum>ev\<leftarrow>es. timer_ms (ev_delay ev))"
      and Q = "\<lambda>r. settled r = Pending \<or> (\<exists>x. settled r = Settled (sequence_time fn r) x)"])
     (use assms in \<open>auto simp: sequence_time_def\<close>)

text \<open>
  C1. With a retry budget \<open>R\<close>, \<^verbatim>\<open>withRetry\<close> invokes the operation at least once and
  at most \<open>R + 1\<close> times. What it returns is the outcome of its last invocation, and
  every invocation before the last was rejected with a retriable error: the first
  success ends the run and is returned (at invocation \<open>k + 1\<close> when the \<open>k\<close> before it
  failed retriably and \<open>k \<le> R\<close>). When all of the first \<open>R + 1\<close> invocations are rejected
  with retriable errors there are exactly \<open>R + 1\<close> invocations and the error of the
  last one is rethrown, retriable though it is.
\<close>

theorem withRetry_attempt_budget:
  "1 \<le> calls (withRetry fn R b f rnd) \<and>
   calls (withRetry fn R b f rnd) \<le> R + 1 \<and>
   outcome_of (settled (withRetry fn R b f rnd)) =
     outcome_of (fn (calls (withRetry fn R b f rnd) - 1)) \<and>
   (\<forall>j. Suc j < calls (withRetry fn R b f rnd) \<longrightarrow>
      (\<exists>d e. fn j = Settled d (Inl e) \<and> retriable e)) \<and>
   (\<forall>k d v. k \<le> R \<and> fn k = Settled d (Inr v) \<and>
      (\<forall>j<k. \<exists>d e. fn j = Settled d (Inl e) \<and> retriable e) \<longrightarrow>
      calls (withRetry fn R b f rnd) = k + 1 \<and>
      outcome_of (settled (withRetry fn R b f rnd)) = Some (Inr v)) \<and>
   ((\<forall>j\<le>R. \<exists>d e. fn j = Settled d (Inl e) \<and> retriable e) \<longrightarrow>
      calls (withRetry fn R b f rnd) = R + 1 \<and>
      (\<exists>t e. settled (withRetry fn R b f rnd) = Settled t (Inl e) \<and> retriable e \<and>
         outcome_of (fn R) = Some (Inl e)))"
proof (intro conjI allI impI)
  show "1 \<le> calls (withRetry fn R b f rnd)"
    unfolding withRetry_def using loop_calls_lower[of 0 fn R b f rnd 0 "[]"] by simp
  show "calls (withRetry fn R b f rnd) \<le> R + 1"
    unfolding withRetry_def using loop_calls_upper[of 0 R fn b f rnd 0 "[]"] by simp
  show "outcome_of (settled (withRetry fn R b f rnd)) =
      outcome_of (fn (calls (withRetry fn R b f rnd) - 1))"
    unfolding withRetry_def by (rule loop_outcome_last)
next
  fix j
  assume "Suc j < calls (withRetry fn R b f rnd)"
  then show "\<exists>d e. fn j = Settled d (Inl e) \<and> retriable e"
    unfolding withRetry_def using loop_earlier_failed[of 0 fn R b f rnd 0 "[]"] by simp
next
  fix k d v
  assume a: "k \<le> R \<and> fn k = Settled d (Inr v) \<and>
      (\<forall>j<k. \<exists>d e. fn j = Settled d (Inl e) \<and> retriable e)"
  have "calls (withRetry_loop fn R b f rnd 0 0 []) = Suc k \<and>
        outcome_of (settled (withRetry_loop fn R b f rnd 0 0 [])) = Some (Inr v)"
    by (rule loop_first_success[where d = d]) (use a in auto)
  then show "calls (withRetry fn R b f rnd) = k + 1"
    and "outcome_of (settled (withRetry fn R b f rnd)) = Some (Inr v)"
    unfolding withRetry_def by simp_all
next
  assume a: "\<forall>j\<le>R. \<exists>d e. fn j = Settled d (Inl e) \<and> retriable e"
  have c: "calls (withRetry_loop fn R b f rnd 0 0 []) = Suc R"
    by (rule loop_all_fail) (use a in auto)
  then show "calls (withRetry fn R b f rnd) = R + 1"
    unfolding withRetry_def by simp
  from a obtain d e where e: "fn R = Settled d (Inl e)" "retriable e" by blast
  have "outcome_of (settled (withRetry_loop fn R b f rnd 0 0 [])) = Some (Inl e)"
    using loop_outcome_last[of fn R b f rnd 0 0 "[]"] c e by simp
  then obtain t where "settled (withRetry_loop fn R b f rnd 0 0 []) = Settled t (Inl e)"
    by (blast dest: outcome_of_SomeD)
  with e show "\<exists>t e. settled (withRetry fn R b f rnd) = Settled t (Inl e) \<and> retriable e \<and>
         outcome_of (fn R) = Some (Inl e)"
    unfolding withRetry_def by auto
qed

lemma retriable_upstream_error:
  "retriable (upstream_error s) \<longleftrightarrow> s \<in> {408, 409, 425, 429, 500, 502, 503, 504}"
  by (auto simp: retriable_def upstream_error_def status_of_def js_or_num_def has_def
        retriableStatuses_def retriableCodes_def)

theorem withRetry_attempt_budget_witness:
  "retriable (upstream_error 503) \<and>
   calls (withRetry (\<lambda>k. Settled 10 (Inl (upstream_error 503))) 2 400 2 (\<lambda>k. 0)
            :: completion retry_result) = 3 \<and>
   outcome_of (settled (withRetry (\<lambda>k. Settled 10 (Inl (upstream_error 503))) 2 400 2 (\<lambda>k. 0)
            :: completion retry_result)) = Some (Inl (upstream_error 503))"
  using withRetry_attempt_budget[of "\<lambda>k. Settled 10 (Inl (upstream_error 503))" 2 400 2 "\<lambda>k. 0"]
  by (auto simp add: retriable_upstream_error)

lemma retriable_iff:
  "retriable e \<longleftrightarrow>
     (\<exists>s. status_of e = Some s \<and> s \<in> {408, 409, 425, 429, 500, 502, 503, 504}) \<or>
     (\<exists>c. err_code e = Some c \<and>
        c \<in> {''ECONNRESET'', ''EPIPE'', ''UND_ERR_CONNECT_TIMEOUT'',
             ''UND_ERR_HEADERS_TIMEOUT'', ''UND_ERR_BODY_TIMEOUT'', ''ETIMEDOUT'',
             ''ESOCKETTIMEDOUT''})"
  by (auto simp: retriable_def has_def retriableStatuses_def retriableCodes_def
        split: option.splits)

lemma loop_continues_iff:
  assumes "fn attempt = Settled d (Inl e)" "Suc attempt \<le> R"
  shows "Suc attempt < calls (withRetry_loop fn R b f rnd attempt now evs) \<longleftrightarrow> retriable e"
proof (cases "retriable e")
  case True
  have "Suc (Suc attempt) \<le> calls (withRetry_loop fn R b f rnd (Suc attempt)
       (now + d + timer_ms (ev_delay (retry_event_of b f rnd (Suc attempt) e)))
       (evs @ [retry_event_of b f rnd (Suc attempt) e]))"
    by (rule loop_calls_lower)
  with True show ?thesis
    by (simp add: loop_retry[of fn attempt, OF assms(1) True assms(2)])
next
  case False
  then show ?thesis by (simp add: loop_throw[of fn attempt, OF assms(1)])
qed

text \<open>
  C2. An error is retriable exactly when its status (\<^verbatim>\<open>err.status || err.response.status\<close>)
  is one of 408, 409, 425, 429, 500, 502, 503, 504 or its code is one of the seven
  transient network codes. Within the budget the loop goes on to another attempt
  after a failure exactly when the error is retriable; an error that is not retriable
  is rethrown at once: when the first attempt fails with one, \<^verbatim>\<open>withRetry\<close> has made
  one invocation, called \<^verbatim>\<open>onRetry\<close> never and rejects with that error.
\<close>

theorem retry_iff_retriable:
  "(retriable e \<longleftrightarrow>
     (\<exists>s. status_of e = Some s \<and> s \<in> {408, 409, 425, 429, 500, 502, 503, 504}) \<or>
     (\<exists>c. err_code e = Some c \<and>
        c \<in> {''ECONNRESET'', ''EPIPE'', ''UND_ERR_CONNECT_TIMEOUT'',
             ''UND_ERR_HEADERS_TIMEOUT'', ''UND_ERR_BODY_TIMEOUT'', ''ETIMEDOUT'',
             ''ESOCKETTIMEDOUT''})) \<and>
   (fn attempt = Settled d (Inl e) \<and> Suc attempt \<le> R \<longrightarrow>
      (Suc attempt < calls (withRetry_loop fn R b f rnd attempt now evs) \<longleftrightarrow> retriable e)) \<and>
   (fn 0 = Settled d (Inl e) \<and> \<not> retriable e \<longrightarrow>
      withRetry fn R b f rnd = \<lparr>settled = Settled d (Inl e), calls = 1, events = []\<rparr>)"
proof (intro conjI impI)
  show "retriable e \<longleftrightarrow>
     (\<exists>s. status_of e = Some s \<and> s \<in> {408, 409, 425, 429, 500, 502, 503, 504}) \<or>
     (\<exists>c. err_code e = Some c \<and>
        c \<in> {''ECONNRESET'', ''EPIPE'', ''UND_ERR_CONNECT_TIMEOUT'',
             ''UND_ERR_HEADERS_TIMEOUT'', ''UND_ERR_BODY_TIMEOUT'', ''ETIMEDOUT'',
             ''ESOCKETTIMEDOUT''})"
    by (rule retriable_iff)
next
  assume "fn attempt = Settled d (Inl e) \<and> Suc attempt \<le> R"
  then show "Suc attempt < calls (withRetry_loop fn R b f rnd attempt now evs) \<longleftrightarrow> retriable e"
    by (intro loop_continues_iff) simp_all
next
  assume "fn 0 = Settled d (Inl e) \<and> \<not> retriable e"
  then show "withRetry fn R b f rnd = \<lparr>settled = Settled d (Inl e), calls = 1, events = []\<rparr>"
    unfolding withRetry_def by (simp add: loop_throw[of fn 0 d e])
qed

theorem retry_iff_retriable_witness:
  "\<not> retriable (upstream_error 401) \<and>
   withRetry (attempts (failing 10 (upstream_error 401))) 3 400 2 (\<lambda>k. 0) =
     \<lparr>settled = Settled 10 (Inl (upstream_error 401)), calls = 1, events = []\<rparr> \<and>
   retriable (upstream_error 429) \<and>
   1 < calls (withRetry_loop (attempts (failing 10 (upstream_error 429))) 3 400 2 (\<lambda>k. 0) 0 0 [])"
  using retry_iff_retriable[of "upstream_error 401" "attempts (failing 10 (upstream_error 401))"
      0 10 3 400 2 "\<lambda>k. 0" 0 "[]"]
    retry_iff_retriable[of "upstream_error 429" "attempts (failing 10 (upstream_error 429))"
      0 10 3 400 2 "\<lambda>k. 0" 0 "[]"]
  by (simp add: retriable_upstream_error failing_def)

subsection \<open>Rounding to doubles and the backoff delay\<close>

lemma round_even_ge: "of_int z \<le> q \<Longrightarrow> z \<le> round_even q"
proof -
  assume "of_int z \<le> q"
  then have "z \<le> \<lfloor>q\<rfloor>" by (simp add: le_floor_iff)
  then show ?thesis by (simp add: round_even_def Let_def)
qed

lemma round_even_le: "q \<le> of_int z \<Longrightarrow> round_even q \<le> z"
proof (cases "q = of_int z")
  case True
  then show ?thesis by (simp add: round_even_def Let_def)
next
  case False
  assume "q \<le> of_int z"
  with False have "q < of_int z" by simp
  then have "\<lfloor>q\<rfloor> < z" by (simp add: floor_less_iff)
  then show ?thesis by (simp add: round_even_def Let_def)
qed

lemma binade_le:
  assumes "x \<noteq> 0" "\<bar>x\<bar> < 2 ^ Suc n"
  shows "binade x \<le> int n"
proof (cases "1 \<le> \<bar>x\<bar>")
  case True
  then have pos: "0 < \<lfloor>\<bar>x\<bar>\<rfloor>" by simp
  have "of_int \<lfloor>\<bar>x\<bar>\<rfloor> \<le> \<bar>x\<bar>" by simp
  with assms(2) have "real_of_int \<lfloor>\<bar>x\<bar>\<rfloor> < 2 ^ Suc n" by linarith
  then have "\<lfloor>\<bar>x\<bar>\<rfloor> < 2 ^ Suc n"
    by (metis of_int_less_iff of_int_numeral of_int_power)
  moreover have "nat (int (Suc n)) = Suc n" by simp
  ultimately have "bitlen \<lfloor>\<bar>x\<bar>\<rfloor> \<le> int (Suc n)"
    unfolding bitlen_le_iff_power by (simp only: of_nat_0_le_iff simp_thms)
  with True show ?thesis by (simp add: binade_def)
next
  case False
  have "0 \<le> bitlen (\<lceil>1 / \<bar>x\<bar>\<rceil> - 1)" by (rule bitlen_nonneg)
  with False show ?thesis by (simp add: binade_def)
qed


lemma pow2_nonpos: "e \<le> 0 \<Longrightarrow> pow2 e = 1 / 2 ^ nat (- e)"
  by (cases "e = 0") (simp_all add: pow2_def)

text \<open>\<open>binade\<close> is the exponent: \<open>2 ^ binade x \<le> x < 2 ^ (binade x + 1)\<close>.\<close>

lemma binade_bounds:
  assumes "0 < x"
  shows "pow2 (binade x) \<le> x \<and> x < pow2 (binade x + 1)"
proof (cases "1 \<le> x")
  case True
  define n where "n = \<lfloor>x\<rfloor>"
  have n: "0 < n" "real_of_int n \<le> x" "x < real_of_int n + 1"
    using True by (simp_all add: n_def)
  from bitlen_bounds[OF n(1)]
  have b: "2 ^ nat (bitlen n - 1) \<le> n" "n < 2 ^ nat (bitlen n)" by simp_all
  have k: "1 \<le> bitlen n" using n(1) by (simp add: bitlen_alt_def)
  have e: "binade x = bitlen n - 1" using True by (simp add: binade_def n_def)
  have p: "pow2 (binade x) = 2 ^ nat (bitlen n - 1)" "pow2 (binade x + 1) = 2 ^ nat (bitlen n)"
    using k by (simp_all add: e pow2_def)
  have "real_of_int (2 ^ nat (bitlen n - 1)) \<le> real_of_int n"
    using b(1) by (simp only: of_int_le_iff)
  then have "(2::real) ^ nat (bitlen n - 1) \<le> real_of_int n"
    by (simp only: of_int_power of_int_numeral)
  with n(2) have lo: "pow2 (binade x) \<le> x" unfolding p by linarith
  have "n + 1 \<le> 2 ^ nat (bitlen n)" using b(2) by simp
  then have "real_of_int (n + 1) \<le> real_of_int (2 ^ nat (bitlen n))"
    by (simp only: of_int_le_iff)
  then have "real_of_int n + 1 \<le> (2::real) ^ nat (bitlen n)"
    by (simp only: of_int_power of_int_numeral of_int_add of_int_1)
  with n(3) have "x < pow2 (binade x + 1)" unfolding p by linarith
  with lo show ?thesis ..
next
  case False
  define y where "y = 1 / x"
  define c where "c = \<lceil>y\<rceil> - 1"
  have y: "1 < y" "x = 1 / y" using assms False by (simp_all add: y_def)
  have c: "real_of_int c < y" "y \<le> real_of_int c + 1"
    unfolding c_def by linarith+
  from y(1) c(2) have "0 < real_of_int c" by linarith
  then have c0: "0 < c" by simp
  from bitlen_bounds[OF c0]
  have b: "2 ^ nat (bitlen c - 1) \<le> c" "c < 2 ^ nat (bitlen c)" by simp_all
  have k: "1 \<le> bitlen c" using c0 by (simp add: bitlen_alt_def)
  have e: "binade x = - bitlen c"
    using False assms by (simp add: binade_def c_def y_def)
  have p: "pow2 (binade x) = 1 / 2 ^ nat (bitlen c)"
    "pow2 (binade x + 1) = 1 / 2 ^ nat (bitlen c - 1)"
    using k by (simp_all add: e pow2_nonpos)
  have "c + 1 \<le> 2 ^ nat (bitlen c)" using b(2) by simp
  then have "real_of_int (c + 1) \<le> real_of_int (2 ^ nat (bitlen c))"
    by (simp only: of_int_le_iff)
  then have "real_of_int c + 1 \<le> (2::real) ^ nat (bitlen c)"
    by (simp only: of_int_power of_int_numeral of_int_add of_int_1)
  with c(2) have "y \<le> 2 ^ nat (bitlen c)" by linarith
  then have "1 / 2 ^ nat (bitlen c) \<le> 1 / y"
    using y(1) by (intro divide_left_mono) simp_all
  then have lo: "pow2 (binade x) \<le> x" by (simp only: p y(2)[symmetric])
  have "real_of_int (2 ^ nat (bitlen c - 1)) \<le> real_of_int c"
    using b(1) by (simp only: of_int_le_iff)
  then have "(2::real) ^ nat (bitlen c - 1) \<le> real_of_int c"
    by (simp only: of_int_power of_int_numeral)
  with c(1) have "2 ^ nat (bitlen c - 1) < y" by linarith
  then have "1 / y < 1 / 2 ^ nat (bitlen c - 1)"
    using y(1) by (intro divide_strict_left_mono) (simp_all add: mult_pos_pos)
  then have "x < pow2 (binade x + 1)" by (simp only: p y(2)[symmetric])
  with lo show ?thesis ..
qed

text \<open>Rounding to a grid of spacing \<open>1 / 2 ^ j\<close> does not cross a multiple of \<open>1 / 2 ^ k\<close>, \<open>k \<le> j\<close>.\<close>

lemma grid_lower:
  assumes "k \<le> j" "real_of_int m / 2 ^ k \<le> x"
  shows "real_of_int m / 2 ^ k \<le> real_of_int (round_even (x / (1 / 2 ^ j))) * (1 / 2 ^ j)"
proof -
  have p: "(2::real) ^ j = 2 ^ (j - k) * 2 ^ k"
    using assms(1) by (simp flip: power_add)
  have "real_of_int m / 2 ^ k * 2 ^ j \<le> x * 2 ^ j"
    using assms(2) by (rule mult_right_mono) simp
  then have "real_of_int (m * 2 ^ (j - k)) \<le> x * 2 ^ j"
    by (simp add: p)
  then have "m * 2 ^ (j - k) \<le> round_even (x * 2 ^ j)"
    by (rule round_even_ge)
  then have "real_of_int (m * 2 ^ (j - k)) \<le> real_of_int (round_even (x * 2 ^ j))"
    by (simp only: of_int_le_iff)
  then have "real_of_int (m * 2 ^ (j - k)) / 2 ^ j \<le> real_of_int (round_even (x * 2 ^ j)) / 2 ^ j"
    by (simp add: divide_right_mono)
  moreover have "real_of_int (m * 2 ^ (j - k)) / 2 ^ j = real_of_int m / 2 ^ k"
    by (simp add: p)
  ultimately show ?thesis by simp
qed

lemma grid_upper:
  assumes "k \<le> j" "x \<le> real_of_int n / 2 ^ k"
  shows "real_of_int (round_even (x / (1 / 2 ^ j))) * (1 / 2 ^ j) \<le> real_of_int n / 2 ^ k"
proof -
  have p: "(2::real) ^ j = 2 ^ (j - k) * 2 ^ k"
    using assms(1) by (simp flip: power_add)
  have "x * 2 ^ j \<le> real_of_int n / 2 ^ k * 2 ^ j"
    using assms(2) by (rule mult_right_mono) simp
  then have "x * 2 ^ j \<le> real_of_int (n * 2 ^ (j - k))"
    by (simp add: p)
  then have "round_even (x * 2 ^ j) \<le> n * 2 ^ (j - k)"
    by (rule round_even_le)
  then have "real_of_int (round_even (x * 2 ^ j)) \<le> real_of_int (n * 2 ^ (j - k))"
    by (simp only: of_int_le_iff)
  then have "real_of_int (round_even (x * 2 ^ j)) / 2 ^ j \<le> real_of_int (n * 2 ^ (j - k)) / 2 ^ j"
    by (simp add: divide_right_mono)
  moreover have "real_of_int (n * 2 ^ (j - k)) / 2 ^ j = real_of_int n / 2 ^ k"
    by (simp add: p)
  ultimately show ?thesis by simp
qed

text \<open>
  Below \<open>2 ^ (53 - k)\<close> the doubles include every multiple of \<open>1 / 2 ^ k\<close>, so rounding
  a value there stays between the multiples that enclose it, and is exact on them.
\<close>

lemma fl64_grid:
  assumes "0 \<le> x" "x < 2 ^ (53 - k)" "k \<le> 52"
    and "real_of_int m / 2 ^ k \<le> x" "x \<le> real_of_int n / 2 ^ k"
  shows "\<exists>y. fl64 x = Some y \<and> real_of_int m / 2 ^ k \<le> y \<and> y \<le> real_of_int n / 2 ^ k"
proof (cases "x = 0")
  case True
  with assms(4,5) show ?thesis by (simp add: fl64_def)
next
  case False
  define e where "e = max (binade x) (- 1022) - 52"
  define j where "j = nat (- e)"
  have "Suc (52 - k) = 53 - k" using assms(3) by simp
  then have "\<bar>x\<bar> < 2 ^ Suc (52 - k)"
    using assms(1,2) by (simp only: abs_of_nonneg)
  with False have "binade x \<le> int (52 - k)" by (rule binade_le)
  with assms(3) have e: "e \<le> - int k" by (simp add: e_def)
  then have u: "pow2 e = 1 / 2 ^ j" and kj: "k \<le> j"
    by (simp_all add: pow2_nonpos j_def)
  define y where "y = real_of_int (round_even (x / (1 / 2 ^ j))) * (1 / 2 ^ j)"
  have lo: "real_of_int m / 2 ^ k \<le> y"
    unfolding y_def using kj assms(4) by (rule grid_lower)
  have hi: "y \<le> real_of_int n / 2 ^ k"
    unfolding y_def using kj assms(5) by (rule grid_upper)
  have "real_of_int 0 / 2 ^ 0 \<le> real_of_int (round_even (x / (1 / 2 ^ j))) * (1 / 2 ^ j)"
    by (rule grid_lower) (use assms(1) in simp_all)
  then have y0: "0 \<le> y" by (simp add: y_def)
  have "(2::real) ^ (53 - k) \<le> 2 ^ 53" by (rule power_increasing) simp_all
  with assms(2) have "x \<le> 2 ^ 53" by linarith
  then have "x \<le> real_of_int (2 ^ 53) / 2 ^ 0" by simp
  then have "real_of_int (round_even (x / (1 / 2 ^ j))) * (1 / 2 ^ j) \<le> real_of_int (2 ^ 53) / 2 ^ 0"
    by (intro grid_upper) simp
  then have "y \<le> 2 ^ 53" by (simp add: y_def)
  also have "(2::real) ^ 53 < 2 ^ 1024" by (rule power_strict_increasing) simp_all
  finally have "\<not> 2 ^ 1024 \<le> \<bar>y\<bar>" using y0 by simp
  then have "fl64 x = Some y"
    using False by (simp add: fl64_def Let_def e_def[symmetric] u y_def)
  with lo hi show ?thesis by blast
qed


lemma fl64_whole:
  assumes "n < 2 ^ 53"
  shows "fl64 (real n) = Some (real n)"
proof -
  have "real n < 2 ^ 53"
    using assms by (metis of_nat_less_iff of_nat_numeral of_nat_power)
  then have "\<exists>y. fl64 (real n) = Some y \<and> real_of_int (int n) / 2 ^ 0 \<le> y \<and>
      y \<le> real_of_int (int n) / 2 ^ 0"
    by (intro fl64_grid) simp_all
  then show ?thesis by auto
qed

lemma fl_mul_Some: "fl_mul (Some x) (Some y) = fl64 (x * y)"
  by (simp add: fl_mul_def)

lemma fl_add_Some: "fl_add (Some x) (Some y) = fl64 (x + y)"
  by (simp add: fl_add_def)

lemma Math_round_Some: "Math_round (Some x) = Some (round x)"
  by (simp add: Math_round_def)

lemma backoff_base:
  assumes "f ^ (a - 1) < 2 ^ 53" "b * f ^ (a - 1) < 2 ^ 53"
  shows "fl_mul (Some (real b)) (Math_pow (real f) (a - 1)) = Some (real (b * f ^ (a - 1)))"
proof -
  have "Math_pow (real f) (a - 1) = Some (real (f ^ (a - 1)))"
    using fl64_whole[OF assms(1)] by (simp only: Math_pow_def of_nat_power)
  then show ?thesis
    using fl64_whole[OF assms(2)] by (simp only: fl_mul_Some of_nat_mult)
qed

lemma fl64_whole_bounds:
  assumes "real m \<le> x" "x \<le> real n" "n < 2 ^ 53"
  shows "\<exists>y. fl64 x = Some y \<and> real m \<le> y \<and> y \<le> real n"
proof -
  have "real n < 2 ^ 53"
    using assms(3) by (metis of_nat_less_iff of_nat_numeral of_nat_power)
  with assms(2) have "x < 2 ^ (53 - 0)" by simp
  moreover have "0 \<le> x" using assms(1) by (rule order.trans[rotated]) simp
  ultimately have "\<exists>y. fl64 x = Some y \<and> real_of_int (int m) / 2 ^ 0 \<le> y \<and>
      y \<le> real_of_int (int n) / 2 ^ 0"
    using assms(1,2) by (intro fl64_grid) simp_all
  then show ?thesis by simp
qed

lemma backoff_bounds:
  assumes "0 \<le> r" "r < 1" "f ^ (a - 1) < 2 ^ 53" "b * f ^ (a - 1) + 200 < 2 ^ 53"
  shows "\<exists>d. backoff_delay b f a r = Some d \<and>
           int (b * f ^ (a - 1)) \<le> d \<and> d \<le> int (b * f ^ (a - 1)) + 200"
proof -
  define B where "B = b * f ^ (a - 1)"
  have "b * f ^ (a - 1) < 2 ^ 53" using assms(4) by simp
  with assms(3) have B: "fl_mul (Some (real b)) (Math_pow (real f) (a - 1)) = Some (real B)"
    unfolding B_def by (rule backoff_base)
  have "\<exists>j. fl64 (r * 200) = Some j \<and> real 0 \<le> j \<and> j \<le> real 200"
    using assms(1,2) by (intro fl64_whole_bounds) simp_all
  then obtain j where j: "fl64 (r * 200) = Some j" "0 \<le> j" "j \<le> 200" by auto
  have "\<exists>s. fl64 (real B + j) = Some s \<and> real B \<le> s \<and> s \<le> real (B + 200)"
    using j(2,3) assms(4) by (intro fl64_whole_bounds) (simp_all add: B_def)
  then obtain s where s: "fl64 (real B + j) = Some s" "real B \<le> s" "s \<le> real (B + 200)"
    by auto
  have d: "backoff_delay b f a r = Some (round s)"
    by (simp only: backoff_delay_def B fl_mul_Some fl_add_Some j(1) s(1) Math_round_Some)
  have "round (real B) \<le> round s" using s(2) by (rule round_mono)
  then have lo: "int B \<le> round s" by (simp only: round_of_nat)
  have "round s \<le> round (real (B + 200))" using s(3) by (rule round_mono)
  then have "round s \<le> int (B + 200)" by (simp only: round_of_nat)
  then have hi: "round s \<le> int B + 200" by simp
  note lo hi
  with d show ?thesis unfolding B_def by blast
qed

lemma backoff_no_jitter:
  assumes "f ^ (a - 1) < 2 ^ 53" "b * f ^ (a - 1) < 2 ^ 53"
  shows "backoff_delay b f a 0 = Some (int (b * f ^ (a - 1)))"
proof -
  have z: "fl64 (0 * 200) = Some 0" by (simp add: fl64_def)
  have "backoff_delay b f a 0 = Math_round (fl64 (real (b * f ^ (a - 1)) + 0))"
    by (simp only: backoff_delay_def backoff_base[OF assms] fl_mul_Some fl_add_Some z)
  also have "\<dots> = Some (round (real (b * f ^ (a - 1))))"
    using fl64_whole[OF assms(2)] by (simp only: add_0_right Math_round_Some)
  finally show ?thesis by (simp only: round_of_nat)
qed





lemma backoff_400_2:
  "backoff_delay 400 2 1 0 = Some 400" "backoff_delay 400 2 2 0 = Some 800"
  "backoff_delay 400 2 3 0 = Some 1600"
  "backoff_delay 400 2 (Suc 0) 0 = Some 400" "backoff_delay 400 2 (Suc (Suc 0)) 0 = Some 800"
  "backoff_delay 400 2 (Suc (Suc (Suc 0))) 0 = Some 1600"
  by (simp_all add: backoff_no_jitter)


section \<open>Properties of withTimeout and callOpenAIChat\<close>

lemma timer_ms_in_range:
  "1 \<le> ms \<Longrightarrow> ms \<le> 2147483647 \<Longrightarrow> timer_ms (Some (int ms)) = ms"
  by (simp add: timer_ms_def)

lemma timer_ms_out_of_range:
  "ms = 0 \<or> 2147483647 < ms \<Longrightarrow> timer_ms (Some (int ms)) = 1"
  by (auto simp: timer_ms_def)

lemma timer_ms_le: "1 \<le> ms \<Longrightarrow> timer_ms (Some (int ms)) \<le> ms"
  by (simp add: timer_ms_def)

lemma withTimeout_result:
  "fst (withTimeout promise ms tf ts) =
     Promise_race tf promise (Settled (timer_ms (Some (int ms))) (Inl (ClientTimeout ms)))"
  by (simp add: withTimeout_def setTimeout_def Let_def)

lemma withTimeout_timers:
  "snd (withTimeout promise ms tf ts) =
     \<lparr>next_handle = Suc (next_handle ts),
      active = removeAll (next_handle ts) (active ts)\<rparr>"
  by (simp add: withTimeout_def setTimeout_def clearTimeout_def Let_def)

text \<open>
  C5, as stated, fails for budgets that a Node timer does not take: asked for more
  than 2147483647 ms the timer fires after 1 ms. With a budget of 2147483648 ms an
  operation that is fulfilled after 50 ms does not get its result through:
  \<^verbatim>\<open>withTimeout\<close> has rejected with the client timeout error after 1 ms.
\<close>

theorem withTimeout_budget_counterexample:
  "\<not> (\<forall>t ms tf ts. t < ms \<longrightarrow>
        fst (withTimeout (Settled t (Inr ''ok'')) ms tf ts) = Settled t (Inr ''ok''))"
proof
  assume "\<forall>t ms tf ts. t < ms \<longrightarrow>
        fst (withTimeout (Settled t (Inr ''ok'')) ms tf ts) = Settled t (Inr ''ok'')"
  then have "fst (withTimeout (Settled 50 (Inr ''ok'')) 2147483648 False
      \<lparr>next_handle = 0, active = []\<rparr>) = Settled 50 (Inr ''ok'')"
    by simp
  then show False
    by (simp add: withTimeout_result timer_ms_def)
qed

text \<open>
  C5, amended. For a budget from 1 to 2147483647 ms: when the operation settles
  before the budget has elapsed \<^verbatim>\<open>withTimeout\<close> settles as the operation did, at the
  same time and with the same value or error; when the budget elapses first (the
  operation settles later, or never) it rejects with the client timeout error when
  the budget elapses. For a budget of 0 or of more than 2147483647 ms the timer
  fires after 1 ms, and an operation that takes longer than that, or never settles,
  is rejected with the client timeout error then. For every budget and on either
  path the handle that its \<^verbatim>\<open>setTimeout\<close> returned is not active afterwards, and no
  other timer is touched.
\<close>

theorem withTimeout_race:
  "(1 \<le> ms \<and> ms \<le> 2147483647 \<longrightarrow>
      (t < ms \<longrightarrow> fst (withTimeout (Settled t x) ms tf ts) = Settled t x) \<and>
      (ms < t \<longrightarrow>
         fst (withTimeout (Settled t x) ms tf ts) = Settled ms (Inl (ClientTimeout ms))) \<and>
      fst (withTimeout Pending ms tf ts) = Settled ms (Inl (ClientTimeout ms))) \<and>
   (ms = 0 \<or> 2147483647 < ms \<longrightarrow>
      (1 < t \<longrightarrow>
         fst (withTimeout (Settled t x) ms tf ts) = Settled 1 (Inl (ClientTimeout ms))) \<and>
      fst (withTimeout Pending ms tf ts) = Settled 1 (Inl (ClientTimeout ms))) \<and>
   fst (setTimeout ts) \<notin> set (active (snd (withTimeout promise ms tf ts))) \<and>
   set (active (snd (withTimeout promise ms tf ts))) = set (active ts) - {fst (setTimeout ts)}"
proof (intro conjI impI)
  assume "1 \<le> ms \<and> ms \<le> 2147483647"
  then have m: "timer_ms (Some (int ms)) = ms" by (intro timer_ms_in_range) simp_all
  show "fst (withTimeout Pending ms tf ts) = Settled ms (Inl (ClientTimeout ms))"
    by (simp add: withTimeout_result m)
  show "fst (withTimeout (Settled t x) ms tf ts) = Settled t x" if "t < ms"
    using that by (simp add: withTimeout_result m)
  show "fst (withTimeout (Settled t x) ms tf ts) = Settled ms (Inl (ClientTimeout ms))"
    if "ms < t"
    using that by (simp add: withTimeout_result m)
next
  assume "ms = 0 \<or> 2147483647 < ms"
  then have m: "timer_ms (Some (int ms)) = 1" by (rule timer_ms_out_of_range)
  show "fst (withTimeout Pending ms tf ts) = Settled 1 (Inl (ClientTimeout ms))"
    by (simp add: withTimeout_result m)
  show "fst (withTimeout (Settled t x) ms tf ts) = Settled 1 (Inl (ClientTimeout ms))"
    if "1 < t"
    using that by (simp add: withTimeout_result m)
next
  show "fst (setTimeout ts) \<notin> set (active (snd (withTimeout promise ms tf ts)))"
    by (simp add: withTimeout_timers setTimeout_def)
  show "set (active (snd (withTimeout promise ms tf ts))) =
      set (active ts) - {fst (setTimeout ts)}"
    by (auto simp: withTimeout_timers setTimeout_def)
qed

theorem withTimeout_race_witness:
  "(1::nat) \<le> 20 \<and> (20::nat) \<le> 2147483647 \<and> (5::nat) < 20 \<and>
   withTimeout (Settled 5 (Inr ''ok'')) 20 True \<lparr>next_handle = 7, active = [3]\<rparr> =
     (Settled 5 (Inr ''ok''), \<lparr>next_handle = 8, active = [3]\<rparr>) \<and>
   (20::nat) < 30 \<and>
   withTimeout (Settled 30 (Inr ''ok'')) 20 False \<lparr>next_handle = 7, active = [3]\<rparr> =
     (Settled 20 (Inl (ClientTimeout 20)), \<lparr>next_handle = 8, active = [3]\<rparr>) \<and>
   (2147483647::nat) < 2147483648 \<and> (1::nat) < 50 \<and>
   withTimeout (Settled 50 (Inr ''ok'')) 2147483648 False \<lparr>next_handle = 7, active = [3]\<rparr> =
     (Settled 1 (Inl (ClientTimeout 2147483648)), \<lparr>next_handle = 8, active = [3]\<rparr>)"
  using withTimeout_race[of 20 5 "Inr ''ok''" True "\<lparr>next_handle = 7, active = [3]\<rparr>"
      "Settled 5 (Inr ''ok'')"]
    withTimeout_race[of 20 30 "Inr ''ok''" False "\<lparr>next_handle = 7, active = [3]\<rparr>"
      "Settled 30 (Inr ''ok'')"]
    withTimeout_race[of 2147483648 50 "Inr ''ok''" False "\<lparr>next_handle = 7, active = [3]\<rparr>"
      "Settled 50 (Inr ''ok'')"]
  by (auto simp add: prod_eq_iff withTimeout_timers)

lemma withRetry_time:
  "settled (withRetry fn R b f rnd) = Pending \<or>
   (\<exists>x. settled (withRetry fn R b f rnd) = Settled (sequence_time fn (withRetry fn R b f rnd)) x)"
  unfolding withRetry_def by (rule loop_time) simp

lemma callOpenAIChat_times_out:
  assumes "timer_ms (Some (int (OPENAI_TIMEOUT_MS cfg))) <
     sequence_time (attempts (w req))
       (withRetry (attempts (w req)) (OPENAI_RETRIES cfg) 400 2 (randoms (w req)))"
  shows "fst (callOpenAIChat cfg w req ts) =
     Settled (timer_ms (Some (int (OPENAI_TIMEOUT_MS cfg))))
       (Inl (ClientTimeout (OPENAI_TIMEOUT_MS cfg)))"
proof -
  let ?r = "withRetry (attempts (w req)) (OPENAI_RETRIES cfg) 400 2 (randoms (w req))"
  from withRetry_time[of "attempts (w req)" "OPENAI_RETRIES cfg" 400 2 "randoms (w req)"]
  show ?thesis
  proof
    assume "settled ?r = Pending"
    then show ?thesis by (simp add: callOpenAIChat_def withTimeout_result)
  next
    assume "\<exists>x. settled ?r = Settled (sequence_time (attempts (w req)) ?r) x"
    then obtain x where "settled ?r = Settled (sequence_time (attempts (w req)) ?r) x" ..
    with assms show ?thesis by (simp add: callOpenAIChat_def withTimeout_result)
  qed
qed

text \<open>
  The first sleep of a run of \<^verbatim>\<open>callOpenAIChat\<close> takes at least 400 ms, so a run that
  sleeps at all takes that long.
\<close>

lemma withRetry_event_attempts:
  "map ev_attempt (events (withRetry fn R b f rnd)) = [1..<calls (withRetry fn R b f rnd)]"
  unfolding withRetry_def using loop_event_attempts[of fn R b f rnd 0 0 "[]"] by simp

lemma first_sleep:
  assumes "events (withRetry fn R 400 2 rnd) \<noteq> []" "0 \<le> rnd 1" "rnd 1 < 1"
  shows "400 \<le> (\<Sum>ev\<leftarrow>events (withRetry fn R 400 2 rnd). timer_ms (ev_delay ev))"
proof -
  let ?r = "withRetry fn R 400 2 rnd"
  from assms(1) have "map ev_attempt (events ?r) \<noteq> []" by simp
  then have "1 < calls ?r" by (simp add: withRetry_event_attempts)
  then have "1 \<in> set [1..<calls ?r]" by simp
  then have "1 \<in> ev_attempt ` set (events ?r)"
    by (simp only: withRetry_event_attempts[symmetric] set_map)
  then obtain ev where ev: "ev \<in> set (events ?r)" "ev_attempt ev = 1" by auto
  have "\<forall>ev\<in>set (events ?r). 1 \<le> ev_attempt ev \<and> ev_attempt ev \<le> R \<and>
      ev_delay ev = backoff_delay 400 2 (ev_attempt ev) (rnd (ev_attempt ev))"
    unfolding withRetry_def by (rule loop_events) simp
  with ev have d: "ev_delay ev = backoff_delay 400 2 1 (rnd 1)" by auto
  have "\<exists>d. backoff_delay 400 2 1 (rnd 1) = Some d \<and>
      int (400 * 2 ^ (1 - 1)) \<le> d \<and> d \<le> int (400 * 2 ^ (1 - 1)) + 200"
    using assms(2,3) by (intro backoff_bounds) simp_all
  then obtain n where n: "backoff_delay 400 2 1 (rnd 1) = Some n" "400 \<le> n" "n \<le> 600"
    by auto
  then have "400 \<le> timer_ms (ev_delay ev)" by (simp add: d timer_ms_def)
  also have "timer_ms (ev_delay ev) \<le> (\<Sum>ev\<leftarrow>events ?r. timer_ms (ev_delay ev))"
    using ev(1) by (intro member_le_sum_list) simp_all
  finally show ?thesis .
qed

text \<open>
  C4. In \<^verbatim>\<open>callOpenAIChat\<close> the one timer runs against the whole of \<^verbatim>\<open>withRetry\<close>. When
  the attempts and the backoff sleeps of the run add up to more than
  \<^verbatim>\<open>OPENAI_TIMEOUT_MS\<close>, the call rejects with the client timeout error when the timer
  fires, whatever the attempts returned and however short each one was: the timer
  fires when the budget elapses if that is from 1 to 2147483647 ms, and after 1 ms
  otherwise. This holds for every budget when each attempt made finishes within the
  budget and \<^verbatim>\<open>Math.random()\<close> returns numbers in \<open>[0, 1)\<close>, and without that for
  every budget of at least 1 ms, and for a budget of 0 when the run takes more than
  1 ms.
\<close>

theorem callOpenAIChat_timeout_wraps_sequence:
  "(OPENAI_TIMEOUT_MS cfg <
      sequence_time (attempts (w req))
        (withRetry (attempts (w req)) (OPENAI_RETRIES cfg) 400 2 (randoms (w req))) \<and>
    (OPENAI_TIMEOUT_MS cfg = 0 \<longrightarrow>
       1 < sequence_time (attempts (w req))
             (withRetry (attempts (w req)) (OPENAI_RETRIES cfg) 400 2 (randoms (w req)))) \<longrightarrow>
    fst (callOpenAIChat cfg w req ts) =
      Settled (timer_ms (Some (int (OPENAI_TIMEOUT_MS cfg))))
        (Inl (ClientTimeout (OPENAI_TIMEOUT_MS cfg)))) \<and>
   (OPENAI_TIMEOUT_MS cfg <
      sequence_time (attempts (w req))
        (withRetry (attempts (w req)) (OPENAI_RETRIES cfg) 400 2 (randoms (w req))) \<and>
    (\<forall>k<calls (withRetry (attempts (w req)) (OPENAI_RETRIES cfg) 400 2 (randoms (w req))).
       duration (attempts (w req) k) \<le> OPENAI_TIMEOUT_MS cfg) \<and>
    (\<forall>a. 0 \<le> randoms (w req) a \<and> randoms (w req) a < 1) \<longrightarrow>
    fst (callOpenAIChat cfg w req ts) =
      Settled (timer_ms (Some (int (OPENAI_TIMEOUT_MS cfg))))
        (Inl (ClientTimeout (OPENAI_TIMEOUT_MS cfg)))) \<and>
   (1 \<le> OPENAI_TIMEOUT_MS cfg \<and> OPENAI_TIMEOUT_MS cfg \<le> 2147483647 \<longrightarrow>
      timer_ms (Some (int (OPENAI_TIMEOUT_MS cfg))) = OPENAI_TIMEOUT_MS cfg)"
proof (intro conjI impI)
  let ?r = "withRetry (attempts (w req)) (OPENAI_RETRIES cfg) 400 2 (randoms (w req))"
  let ?T = "OPENAI_TIMEOUT_MS cfg"
  have general: "fst (callOpenAIChat cfg w req ts) =
      Settled (timer_ms (Some (int ?T))) (Inl (ClientTimeout ?T))"
    if late: "?T < sequence_time (attempts (w req)) ?r"
      and zero: "?T = 0 \<Longrightarrow> 1 < sequence_time (attempts (w req)) ?r"
  proof (rule callOpenAIChat_times_out)
    show "timer_ms (Some (int ?T)) < sequence_time (attempts (w req)) ?r"
    proof (cases "?T = 0")
      case True
      with zero show ?thesis by (simp add: timer_ms_def)
    next
      case False
      then have "timer_ms (Some (int ?T)) \<le> ?T" by (intro timer_ms_le) simp
      with late show ?thesis by simp
    qed
  qed
  {
    assume "?T < sequence_time (attempts (w req)) ?r \<and>
      (?T = 0 \<longrightarrow> 1 < sequence_time (attempts (w req)) ?r)"
    then show "fst (callOpenAIChat cfg w req ts) =
        Settled (timer_ms (Some (int ?T))) (Inl (ClientTimeout ?T))"
      by (intro general) simp_all
  }
  {
    assume a: "?T < sequence_time (attempts (w req)) ?r \<and>
      (\<forall>k<calls ?r. duration (attempts (w req) k) \<le> ?T) \<and>
      (\<forall>a. 0 \<le> randoms (w req) a \<and> randoms (w req) a < 1)"
    have "1 < sequence_time (attempts (w req)) ?r" if z: "?T = 0"
    proof -
      from a z have "(\<Sum>k<calls ?r. duration (attempts (w req) k)) = 0" by simp
      with a z have s: "0 < (\<Sum>ev\<leftarrow>events ?r. timer_ms (ev_delay ev))"
        by (simp add: sequence_time_def)
      then have "events ?r \<noteq> []" by auto
      then have "400 \<le> (\<Sum>ev\<leftarrow>events ?r. timer_ms (ev_delay ev))"
        using a by (intro first_sleep) simp_all
      then show ?thesis by (simp add: sequence_time_def)
    qed
    with a show "fst (callOpenAIChat cfg w req ts) =
        Settled (timer_ms (Some (int ?T))) (Inl (ClientTimeout ?T))"
      by (intro general) simp_all
  }
  {
    assume "1 \<le> ?T \<and> ?T \<le> 2147483647"
    then show "timer_ms (Some (int ?T)) = ?T"
      by (intro timer_ms_in_range) simp_all
  }
qed

lemma attempts_failing: "attempts (failing d e) k = Settled d (Inl e)"
  by (simp add: failing_def)

lemma failing_sequence:
  "withRetry (attempts (failing 9000 (upstream_error 503))) 3 400 2
       (randoms (failing 9000 (upstream_error 503))) =
     \<lparr>settled = Settled 38800 (Inl (upstream_error 503)), calls = 4,
      events = map (\<lambda>a. retry_event_of 400 2 (\<lambda>k. 0) a (upstream_error 503)) [1, 2, 3]\<rparr>"
  by (simp add: withRetry_def withRetry_loop.simps failing_def retriable_upstream_error
        retry_event_of_def backoff_400_2 timer_ms_def)

theorem callOpenAIChat_timeout_wraps_sequence_witness:
  "duration (attempts (failing 9000 (upstream_error 503)) 0) < OPENAI_TIMEOUT_MS (default_config 6) \<and>
   sequence_time (attempts (failing 9000 (upstream_error 503)))
     (withRetry (attempts (failing 9000 (upstream_error 503))) 3 400 2
        (randoms (failing 9000 (upstream_error 503)))) = 38800 \<and>
   fst (callOpenAIChat (default_config 6) (\<lambda>req. failing 9000 (upstream_error 503))
          (chat_request (messages initial_state) ''gpt-5'') (timer_table initial_state)) =
     Settled 20000 (Inl (ClientTimeout 20000))"
  using callOpenAIChat_timeout_wraps_sequence[of "default_config 6"
      "\<lambda>req. failing 9000 (upstream_error 503)"
      "chat_request (messages initial_state) ''gpt-5''" "timer_table initial_state"]
  by (auto simp add: failing_sequence sequence_time_def default_config_def
        retry_event_of_def backoff_400_2 attempts_failing timer_ms_def)

section \<open>Properties of the route\<close>

text \<open>
  C8. \<^verbatim>\<open>trimForTwitch\<close> returns a text of at most 1000 characters unchanged and cuts a
  longer one to its first 1000 characters.
\<close>

theorem trimForTwitch_spec:
  "(length text \<le> 1000 \<longrightarrow> trimForTwitch text = text) \<and>
   (1000 < length text \<longrightarrow>
      trimForTwitch text = take 1000 text \<and> length (trimForTwitch text) = 1000)"
  by (auto simp: trimForTwitch_def)

theorem trimForTwitch_spec_witness:
  "length ''hello'' \<le> 1000 \<and> trimForTwitch ''hello'' = ''hello'' \<and>
   1000 < length (replicate 1500 (CHR ''x'')) \<and>
   trimForTwitch (replicate 1500 (CHR ''x'')) = replicate 1000 (CHR ''x'')"
  using trimForTwitch_spec[of "''hello''"] trimForTwitch_spec[of "replicate 1500 (CHR ''x'')"]
  by simp

lemma callOpenAIChat_settles:
  "\<exists>t x. fst (callOpenAIChat cfg w req ts) = Settled t x"
  by (cases "settled (withRetry (attempts (w req)) (OPENAI_RETRIES cfg) 400 2 (randoms (w req)))")
     (auto simp: callOpenAIChat_def withTimeout_result)

lemma fallback_cases:
  "(fst (callOpenAIChat cfg w (mk (OPENAI_MODEL cfg)) ts) = Settled t (Inr v) \<longrightarrow>
      invoked (call_with_fallback cfg w mk ts) = [OPENAI_MODEL cfg] \<and>
      outcome (call_with_fallback cfg w mk ts) = Settled t (Inr v)) \<and>
   (fst (callOpenAIChat cfg w (mk (OPENAI_MODEL cfg)) ts) = Settled t (Inl e) \<and>
    FALLBACK_MODEL cfg \<noteq> [] \<and> FALLBACK_MODEL cfg \<noteq> OPENAI_MODEL cfg \<longrightarrow>
      invoked (call_with_fallback cfg w mk ts) = [OPENAI_MODEL cfg, FALLBACK_MODEL cfg] \<and>
      outcome (call_with_fallback cfg w mk ts) =
        later t (fst (callOpenAIChat cfg w (mk (FALLBACK_MODEL cfg))
                   (snd (callOpenAIChat cfg w (mk (OPENAI_MODEL cfg)) ts)))) \<and>
      (\<forall>u e'. fst (callOpenAIChat cfg w (mk (FALLBACK_MODEL cfg))
                   (snd (callOpenAIChat cfg w (mk (OPENAI_MODEL cfg)) ts))) = Settled u (Inl e')
         \<longrightarrow> outcome (call_with_fallback cfg w mk ts) = Settled (t + u) (Inl e'))) \<and>
   (fst (callOpenAIChat cfg w (mk (OPENAI_MODEL cfg)) ts) = Settled t (Inl e) \<and>
    \<not> (FALLBACK_MODEL cfg \<noteq> [] \<and> FALLBACK_MODEL cfg \<noteq> OPENAI_MODEL cfg) \<longrightarrow>
      invoked (call_with_fallback cfg w mk ts) = [OPENAI_MODEL cfg] \<and>
      outcome (call_with_fallback cfg w mk ts) = Settled t (Inl e))"
  by (auto simp: call_with_fallback_def Let_def split: prod.splits)


lemma attempts_replying: "attempts (replying d c) k = Settled d (Inr \<lparr>choices = [Some c]\<rparr>)"
  by (simp add: replying_def)

text \<open>
  Evaluating a call that the upstream answers at once, within a budget that a timer
  takes.
\<close>

lemma callOpenAIChat_failing:
  assumes "w req = failing d e" "\<not> retriable e" "d < OPENAI_TIMEOUT_MS cfg"
    "OPENAI_TIMEOUT_MS cfg \<le> 2147483647"
  shows "fst (callOpenAIChat cfg w req ts) = Settled d (Inl e)"
  using assms
  by (simp add: callOpenAIChat_def withTimeout_result withRetry_def attempts_failing
        loop_throw[of _ 0 d e] timer_ms_def)

lemma callOpenAIChat_replying:
  assumes "w req = replying d c" "d < OPENAI_TIMEOUT_MS cfg"
    "OPENAI_TIMEOUT_MS cfg \<le> 2147483647"
  shows "fst (callOpenAIChat cfg w req ts) = Settled d (Inr \<lparr>choices = [Some c]\<rparr>)"
  using assms
  by (simp add: callOpenAIChat_def withTimeout_result withRetry_def attempts_replying
        loop_success[of _ 0 d "\<lparr>choices = [Some c]\<rparr>"] timer_ms_def)

lemma callOpenAIChat_timers:
  "snd (callOpenAIChat cfg w req ts) =
     \<lparr>next_handle = Suc (next_handle ts), active = removeAll (next_handle ts) (active ts)\<rparr>"
  by (simp add: callOpenAIChat_def withTimeout_timers)

lemma handler_models_called:
  "models_called (handler cfg w hs text st) = invoked (route_call cfg w text st)"
  by (cases "GPT_MODE cfg = ''CHAT''")
     (simp_all add: handler_def route_call_def route_request_def Let_def
        split: promise.splits sum.splits)

text \<open>
  C3. When the primary call is fulfilled only the primary model has been called and
  its response is the result. When it is rejected and \<^verbatim>\<open>FALLBACK_MODEL\<close> is set and
  differs from \<^verbatim>\<open>OPENAI_MODEL\<close>, \<^verbatim>\<open>callOpenAIChat\<close> is called once more, with the
  fallback model, and what that call does is the result: its response, or its error
  and not the primary's. When there is no distinct fallback only the primary model
  has been called and its error is the result. The route makes this call, in either mode,
  with the request of that mode.
\<close>

theorem fallback_orchestration:
  "(fst (callOpenAIChat cfg w (mk (OPENAI_MODEL cfg)) ts) = Settled t (Inr v) \<longrightarrow>
      invoked (call_with_fallback cfg w mk ts) = [OPENAI_MODEL cfg] \<and>
      outcome (call_with_fallback cfg w mk ts) = Settled t (Inr v)) \<and>
   (fst (callOpenAIChat cfg w (mk (OPENAI_MODEL cfg)) ts) = Settled t (Inl e) \<and>
    FALLBACK_MODEL cfg \<noteq> [] \<and> FALLBACK_MODEL cfg \<noteq> OPENAI_MODEL cfg \<longrightarrow>
      invoked (call_with_fallback cfg w mk ts) = [OPENAI_MODEL cfg, FALLBACK_MODEL cfg] \<and>
      outcome (call_with_fallback cfg w mk ts) =
        later t (fst (callOpenAIChat cfg w (mk (FALLBACK_MODEL cfg))
                   (snd (callOpenAIChat cfg w (mk (OPENAI_MODEL cfg)) ts)))) \<and>
      (\<forall>u e'. fst (callOpenAIChat cfg w (mk (FALLBACK_MODEL cfg))
                   (snd (callOpenAIChat cfg w (mk (OPENAI_MODEL cfg)) ts))) = Settled u (Inl e')
         \<longrightarrow> outcome (call_with_fallback cfg w mk ts) = Settled (t + u) (Inl e'))) \<and>
   (fst (callOpenAIChat cfg w (mk (OPENAI_MODEL cfg)) ts) = Settled t (Inl e) \<and>
    \<not> (FALLBACK_MODEL cfg \<noteq> [] \<and> FALLBACK_MODEL cfg \<noteq> OPENAI_MODEL cfg) \<longrightarrow>
      invoked (call_with_fallback cfg w mk ts) = [OPENAI_MODEL cfg] \<and>
      outcome (call_with_fallback cfg w mk ts) = Settled t (Inl e)) \<and>
   models_called (handler cfg w hs text st) =
     invoked (call_with_fallback cfg w (route_request cfg text st) (timer_table st))"
  using fallback_cases[of cfg w mk ts t v e] handler_models_called[of cfg w hs "text" st]
  by (simp only: route_call_def) blast

theorem fallback_orchestration_witness:
  "fst (callOpenAIChat (default_config 6)
         (\<lambda>req. if model req = ''gpt-5'' then failing 10 (upstream_error 401)
                 else failing 15 (upstream_error 400))
         (chat_request (messages initial_state) ''gpt-5'') (timer_table initial_state)) =
     Settled 10 (Inl (upstream_error 401)) \<and>
   FALLBACK_MODEL (default_config 6) \<noteq> [] \<and>
   FALLBACK_MODEL (default_config 6) \<noteq> OPENAI_MODEL (default_config 6) \<and>
   invoked (call_with_fallback (default_config 6)
         (\<lambda>req. if model req = ''gpt-5'' then failing 10 (upstream_error 401)
                 else failing 15 (upstream_error 400))
         (chat_request (messages initial_state)) (timer_table initial_state)) =
     [''gpt-5'', ''gpt-5-mini''] \<and>
   outcome (call_with_fallback (default_config 6)
         (\<lambda>req. if model req = ''gpt-5'' then failing 10 (upstream_error 401)
                 else failing 15 (upstream_error 400))
         (chat_request (messages initial_state)) (timer_table initial_state)) =
     Settled 25 (Inl (upstream_error 400))"
proof -
  let ?w = "\<lambda>req. if model req = ''gpt-5'' then failing 10 (upstream_error 401)
                 else failing 15 (upstream_error 400)"
  have p: "fst (callOpenAIChat (default_config 6) ?w
         (chat_request (messages initial_state) ''gpt-5'') ts) =
     Settled 10 (Inl (upstream_error 401))" for ts
    by (rule callOpenAIChat_failing)
       (simp_all add: chat_request_def retriable_upstream_error default_config_def)
  have q: "fst (callOpenAIChat (default_config 6) ?w
         (chat_request (messages initial_state) ''gpt-5-mini'') ts) =
     Settled 15 (Inl (upstream_error 400))" for ts
    by (rule callOpenAIChat_failing)
       (simp_all add: chat_request_def retriable_upstream_error default_config_def)
  have m: "OPENAI_MODEL (default_config 6) = ''gpt-5''"
    "FALLBACK_MODEL (default_config 6) = ''gpt-5-mini''"
    by (simp_all add: default_config_def)
  show ?thesis
    using fallback_orchestration[where cfg = "default_config 6" and w = ?w
        and mk = "chat_request (messages initial_state)" and ts = "timer_table initial_state"
        and t = 10 and e = "upstream_error 401"]
    by (simp add: p q m)
qed

lemma handler_failure:
  assumes "outcome (route_call cfg w text st) = Settled t (Inl e)"
  shows "sent (handler cfg w hs text st) = catch_handler e hs"
    and "reply (handler cfg w hs text st) = None"
  using assms
  by (cases "GPT_MODE cfg = ''CHAT''";
      simp add: handler_def route_call_def route_request_def Let_def)+

lemma handler_success:
  assumes "outcome (route_call cfg w text st) = Settled t (Inr v)"
  shows "sent (handler cfg w hs text st) = send_ok (agent_response_of v) hs"
    and "reply (handler cfg w hs text st) = Some (agent_response_of v)"
  using assms
  by (cases "GPT_MODE cfg = ''CHAT''";
      simp add: handler_def route_call_def route_request_def Let_def)+

lemma status_of_ClientTimeout: "status_of (ClientTimeout ms) = None"
  by (simp add: status_of_def ClientTimeout_def js_or_num_def)

text \<open>Data that is there but falsy (\<^verbatim>\<open>0\<close>, \<^verbatim>\<open>false\<close>, \<^verbatim>\<open>null\<close>, \<^verbatim>\<open>''\<close>) is passed over for the message.\<close>

lemma detail_of_falsy_data:
  assumes "err_response_data e = Some d" "\<not> data_truthy d" "err_message e = Some m" "m \<noteq> []"
  shows "detail_of e = m"
  using assms by (simp add: detail_of_def stringified_data_def js_or_str_def)

text \<open>
  C7. When the call of a request fails with error \<open>e\<close> and no response has been sent
  before, the route answers 503 if the status of \<open>e\<close> is one of 429, 500, 502, 503,
  504 and 500 in every other case (no status, another status, the client timeout
  error), and the body names the status of \<open>e\<close> when it has one (a status 0 counts
  as none: \<^verbatim>\<open>status || httpStatus\<close>).
\<close>

theorem failure_status_mapping:
  "(outcome (route_call cfg w text st) = Settled t (Inl e) \<longrightarrow>
      sent (handler cfg w False text st) =
        Some \<lparr>http_status =
                (if \<exists>s. status_of e = Some s \<and> s \<in> {429, 500, 502, 503, 504}
                 then 503 else 500),
              body = failure_body e\<rparr>) \<and>
   httpStatus_of (ClientTimeout ms) = 500 \<and>
   (status_of e = Some s \<and> s \<noteq> 0 \<longrightarrow>
      failure_body e =
        ''AI backend temporarily unavailable (status='' @ show_int s @ ''). Details: ''
          @ detail_of e)"
proof (intro conjI impI)
  assume "outcome (route_call cfg w text st) = Settled t (Inl e)"
  then have "sent (handler cfg w False text st) = catch_handler e False"
    by (rule handler_failure)
  moreover have "httpStatus_of e =
      (if \<exists>s. status_of e = Some s \<and> s \<in> {429, 500, 502, 503, 504} then 503 else 500)"
    by (auto simp: httpStatus_of_def has_def split: option.splits)
  ultimately show "sent (handler cfg w False text st) =
        Some \<lparr>http_status =
                (if \<exists>s. status_of e = Some s \<and> s \<in> {429, 500, 502, 503, 504}
                 then 503 else 500),
              body = failure_body e\<rparr>"
    by (simp add: catch_handler_def)
next
  show "httpStatus_of (ClientTimeout ms) = 500"
    by (simp add: httpStatus_of_def status_of_ClientTimeout has_def)
next
  assume "status_of e = Some s \<and> s \<noteq> 0"
  then show "failure_body e =
        ''AI backend temporarily unavailable (status='' @ show_int s @ ''). Details: ''
          @ detail_of e"
    by (simp add: failure_body_def js_or_num_def)
qed


lemma show_int_examples: "show_int 503 = ''503''" "show_int 401 = ''401''"
  by code_simp+

lemma failing_503_budget_2:
  "withRetry (attempts (failing 10 (upstream_error 503))) 2 400 2
       (randoms (failing 10 (upstream_error 503))) =
     \<lparr>settled = Settled 1230 (Inl (upstream_error 503)), calls = 3,
      events = map (\<lambda>a. retry_event_of 400 2 (\<lambda>k. 0) a (upstream_error 503)) [1, 2]\<rparr>"
  by (simp add: withRetry_def withRetry_loop.simps failing_def retriable_upstream_error
        retry_event_of_def backoff_400_2 timer_ms_def)

theorem failure_status_mapping_witness:
  "calls (withRetry (attempts (failing 10 (upstream_error 503))) 2 400 2
       (randoms (failing 10 (upstream_error 503)))) = 3 \<and>
   outcome (route_call ((default_config 6)\<lparr>OPENAI_RETRIES := 2, FALLBACK_MODEL := ''gpt-5''\<rparr>)
      (\<lambda>req. failing 10 (upstream_error 503)) ''hi'' initial_state) =
     Settled 1230 (Inl (upstream_error 503)) \<and>
   sent (handler ((default_config 6)\<lparr>OPENAI_RETRIES := 2, FALLBACK_MODEL := ''gpt-5''\<rparr>)
      (\<lambda>req. failing 10 (upstream_error 503)) False ''hi'' initial_state) =
     Some \<lparr>http_status = 503,
           body = ''AI backend temporarily unavailable (status=503). Details: upstream''\<rparr>"
proof -
  let ?cfg = "(default_config 6)\<lparr>OPENAI_RETRIES := 2, FALLBACK_MODEL := ''gpt-5''\<rparr>"
  let ?w = "\<lambda>req. failing 10 (upstream_error 503)"
  have c: "fst (callOpenAIChat cfg ?w req ts) = Settled 1230 (Inl (upstream_error 503))"
    if "OPENAI_RETRIES cfg = 2" "OPENAI_TIMEOUT_MS cfg = 20000" for cfg req ts
    using that
    by (simp add: callOpenAIChat_def withTimeout_result failing_503_budget_2 timer_ms_def)
  have o: "outcome (route_call ?cfg ?w ''hi'' initial_state) =
      Settled 1230 (Inl (upstream_error 503))"
    by (simp add: route_call_def call_with_fallback_def Let_def case_prod_beta c
          default_config_def)
  have s: "status_of (upstream_error 503) = Some 503"
    by (simp add: status_of_def upstream_error_def js_or_num_def)
  have d: "detail_of (upstream_error 503) = ''upstream''"
    by (simp add: detail_of_def stringified_data_def upstream_error_def js_or_str_def)
  show ?thesis
    using failure_status_mapping[of ?cfg ?w "''hi''" initial_state 1230 "upstream_error 503"
        20000 503]
    by (simp add: o s d failing_503_budget_2 show_int_examples)
qed

section \<open>The conversation window\<close>

lemma handler_chat_messages:
  assumes "GPT_MODE cfg = ''CHAT''"
  shows "messages (new_state (handler cfg w hs text st)) =
     (case reply (handler cfg w hs text st) of
        None \<Rightarrow> push_user (HISTORY_LENGTH cfg) text (messages st)
      | Some a \<Rightarrow> push_user (HISTORY_LENGTH cfg) text (messages st)
                  @ [\<lparr>role = Assistant, content = a\<rparr>])"
  using assms by (simp add: handler_def Let_def split: promise.splits sum.splits)

text \<open>The pairs that a window of \<open>h\<close> pairs keeps: the last \<open>h\<close>.\<close>

lemma window_append:
  "drop (length (drop (length xs - h) xs @ ys) - h) (drop (length xs - h) xs @ ys) =
   drop (length (xs @ ys) - h) (xs @ ys)"
  by (cases "length xs \<le> h") (simp_all add: add.commute)

lemma length_concat_pairs: "length (concat (map pair_of ps)) = 2 * length ps"
  by (induction ps) (simp_all add: pair_of_def)

lemma push_user_window:
  assumes "1 \<le> h" "length ps \<le> h"
  shows "push_user h text (sys # concat (map pair_of ps)) @ [\<lparr>role = Assistant, content = a\<rparr>] =
         sys # concat (map pair_of (drop (length (ps @ [(text, a)]) - h) (ps @ [(text, a)])))"
proof (cases "length ps = h")
  case True
  with assms(1) obtain p ps' where ps: "ps = p # ps'" by (cases ps) auto
  have "push_user h text (sys # concat (map pair_of ps)) =
        sys # concat (map pair_of ps') @ [\<lparr>role = User, content = text\<rparr>]"
    using True by (simp add: push_user_def splice_def Let_def length_concat_pairs ps pair_of_def)
  moreover have "drop (length (ps @ [(text, a)]) - h) (ps @ [(text, a)]) = ps' @ [(text, a)]"
    using True by (simp add: ps)
  ultimately show ?thesis by (simp add: pair_of_def)
next
  case False
  with assms(2) have lt: "length ps < h" by simp
  then have "push_user h text (sys # concat (map pair_of ps)) =
        sys # concat (map pair_of ps) @ [\<lparr>role = User, content = text\<rparr>]"
    by (simp add: push_user_def Let_def length_concat_pairs)
  moreover have "drop (length (ps @ [(text, a)]) - h) (ps @ [(text, a)]) = ps @ [(text, a)]"
    using lt by simp
  ultimately show ?thesis by (simp add: pair_of_def)
qed

lemma handle_all_window:
  assumes "GPT_MODE cfg = ''CHAT''" "1 \<le> HISTORY_LENGTH cfg"
    and "messages st = sys # concat (map pair_of ps)" "length ps \<le> HISTORY_LENGTH cfg"
    and "transcript cfg cs st = Some T"
  shows "messages (handle_all cfg cs st) =
     sys # concat (map pair_of (drop (length (ps @ T) - HISTORY_LENGTH cfg) (ps @ T)))"
  using assms(3-5)
proof (induction cs arbitrary: st ps T)
  case Nil
  then show ?case by simp
next
  case (Cons c cs)
  obtain q w hs where c: "c = (q, w, hs)" by (cases c) auto
  let ?st = "new_state (handler cfg w hs q st)"
  from Cons.prems(3) obtain a T' where
    a: "reply (handler cfg w hs q st) = Some a" and
    T': "transcript cfg cs ?st = Some T'" and T: "T = (q, a) # T'"
    by (auto simp: c split: option.splits)
  let ?ps = "drop (length (ps @ [(q, a)]) - HISTORY_LENGTH cfg) (ps @ [(q, a)])"
  have m: "messages ?st = sys # concat (map pair_of ?ps)"
    using handler_chat_messages[OF assms(1), of w hs q st] a Cons.prems(1)
      push_user_window[OF assms(2) Cons.prems(2), of q sys a]
    by simp
  have l: "length ?ps \<le> HISTORY_LENGTH cfg" by simp
  have "messages (handle_all cfg cs ?st) =
      sys # concat (map pair_of (drop (length (?ps @ T') - HISTORY_LENGTH cfg) (?ps @ T')))"
    by (rule Cons.IH[OF m l T'])
  also have "drop (length (?ps @ T') - HISTORY_LENGTH cfg) (?ps @ T') =
      drop (length ((ps @ [(q, a)]) @ T') - HISTORY_LENGTH cfg) ((ps @ [(q, a)]) @ T')"
    by (rule window_append)
  finally show ?case by (simp add: c T)
qed

lemma length_transcript: "transcript cfg cs st = Some T \<Longrightarrow> length T = length cs"
  by (induction cs arbitrary: st T) (auto split: option.splits)

text \<open>
  With a window of at least one pair the push, splice included, keeps the
  conversation within \<open>2 * h + 1\<close> messages.
\<close>

lemma length_push_user:
  assumes "1 \<le> h" "length msgs \<le> 2 * h + 1"
  shows "length (push_user h text msgs) \<le> 2 * h + 1"
  using assms by (simp add: push_user_def splice_def Let_def) arith

text \<open>
  For a window of at least one pair the conversation behaves as C6 says: after \<open>N\<close>
  requests that each got a reply, starting from the system message alone, it is the
  system message followed by the last \<open>min N H\<close> (query, reply) pairs, whole and in
  order, so its length is \<open>1 + 2 * min N H\<close>.
\<close>

lemma conversation_window:
  assumes "GPT_MODE cfg = ''CHAT''" "1 \<le> HISTORY_LENGTH cfg"
    and "messages st = [sys]" and "transcript cfg cs st = Some T"
  shows "messages (handle_all cfg cs st) =
           sys # concat (map pair_of (drop (length cs - HISTORY_LENGTH cfg) T))"
    and "length (messages (handle_all cfg cs st)) = 1 + 2 * min (length cs) (HISTORY_LENGTH cfg)"
proof -
  have n: "length T = length cs" using assms(4) by (rule length_transcript)
  have "messages (handle_all cfg cs st) =
     sys # concat (map pair_of (drop (length ([] @ T) - HISTORY_LENGTH cfg) ([] @ T)))"
    by (rule handle_all_window[OF assms(1,2) _ _ assms(4)]) (simp_all add: assms(3))
  then show "messages (handle_all cfg cs st) =
           sys # concat (map pair_of (drop (length cs - HISTORY_LENGTH cfg) T))"
    by (simp add: n)
  then show "length (messages (handle_all cfg cs st)) =
      1 + 2 * min (length cs) (HISTORY_LENGTH cfg)"
    by (simp add: length_concat_pairs n min_def)
qed


text \<open>Evaluating the route when every upstream call answers alike.\<close>

lemma route_call_replying:
  assumes "\<And>req. w req = replying d c" "d < OPENAI_TIMEOUT_MS cfg"
    "OPENAI_TIMEOUT_MS cfg \<le> 2147483647"
  shows "outcome (route_call cfg w text st) = Settled d (Inr \<lparr>choices = [Some c]\<rparr>)"
  by (simp add: route_call_def call_with_fallback_def Let_def case_prod_beta
        callOpenAIChat_replying[OF assms])

lemma route_call_failing:
  assumes "\<And>req. w req = failing d e" "\<not> retriable e" "d < OPENAI_TIMEOUT_MS cfg"
    "OPENAI_TIMEOUT_MS cfg \<le> 2147483647"
  shows "outcome (route_call cfg w text st) =
     Settled (if FALLBACK_MODEL cfg \<noteq> [] \<and> FALLBACK_MODEL cfg \<noteq> OPENAI_MODEL cfg
              then d + d else d) (Inl e)"
  by (simp add: route_call_def call_with_fallback_def Let_def case_prod_beta
        callOpenAIChat_failing[OF assms])

lemma handler_chat_replying:
  assumes "GPT_MODE cfg = ''CHAT''" "\<And>req. w req = replying d c" "d < OPENAI_TIMEOUT_MS cfg"
    "OPENAI_TIMEOUT_MS cfg \<le> 2147483647"
  shows "messages (new_state (handler cfg w hs text st)) =
           push_user (HISTORY_LENGTH cfg) text (messages st)
             @ [\<lparr>role = Assistant, content = js_trim c\<rparr>]"
    and "reply (handler cfg w hs text st) = Some (js_trim c)"
proof -
  have o: "outcome (route_call cfg w text st) = Settled d (Inr \<lparr>choices = [Some c]\<rparr>)"
    by (rule route_call_replying[OF assms(2,3,4)])
  show r: "reply (handler cfg w hs text st) = Some (js_trim c)"
    using handler_success(2)[OF o] by (simp add: agent_response_of_def)
  show "messages (new_state (handler cfg w hs text st)) =
           push_user (HISTORY_LENGTH cfg) text (messages st)
             @ [\<lparr>role = Assistant, content = js_trim c\<rparr>]"
    using handler_chat_messages[OF assms(1), of w hs "text" st] by (simp add: r)
qed

lemma handler_chat_failing:
  assumes "GPT_MODE cfg = ''CHAT''" "\<And>req. w req = failing d e" "\<not> retriable e"
    "d < OPENAI_TIMEOUT_MS cfg" "OPENAI_TIMEOUT_MS cfg \<le> 2147483647"
  shows "messages (new_state (handler cfg w hs text st)) =
           push_user (HISTORY_LENGTH cfg) text (messages st)"
proof -
  have "outcome (route_call cfg w text st) =
     Settled (if FALLBACK_MODEL cfg \<noteq> [] \<and> FALLBACK_MODEL cfg \<noteq> OPENAI_MODEL cfg
              then d + d else d) (Inl e)"
    by (rule route_call_failing[OF assms(2,3,4,5)])
  then have "reply (handler cfg w hs text st) = None"
    by (rule handler_failure(2))
  then show ?thesis
    using handler_chat_messages[OF assms(1), of w hs "text" st] by simp
qed

lemma js_trim_examples: "js_trim ''hello'' = ''hello''" "js_trim ''a2'' = ''a2''"
  "js_trim ''a3'' = ''a3''"
  by (simp_all add: js_trim_def js_space_def)

text \<open>
  C6 at a window of no pairs (\<^verbatim>\<open>HISTORY_LENGTH=0\<close>), one request \<open>hi\<close> answered
  \<open>hello\<close>: the push makes two messages, more than \<^verbatim>\<open>maxLen\<close> = 1, and
  \<^verbatim>\<open>splice(1, 2)\<close> removes the user message that was just pushed, alone. The request
  goes upstream with the system message only, and the conversation ends as the
  system message and the reply: two messages, not \<open>1 + 2 * 0\<close>.
\<close>

theorem zero_window_evicts_query:
  "push_user (HISTORY_LENGTH (default_config 0)) ''hi'' (messages initial_state) =
     [\<lparr>role = System, content = ''You are a helpful Twitch Chatbot.''\<rparr>] \<and>
   msgArray (route_request (default_config 0) ''hi'' initial_state ''gpt-5'') =
     [\<lparr>role = System, content = ''You are a helpful Twitch Chatbot.''\<rparr>] \<and>
   transcript (default_config 0) [(''hi'', \<lambda>req. replying 10 ''hello'', False)] initial_state =
     Some [(''hi'', ''hello'')] \<and>
   messages (handle_all (default_config 0) [(''hi'', \<lambda>req. replying 10 ''hello'', False)]
       initial_state) =
     [\<lparr>role = System, content = ''You are a helpful Twitch Chatbot.''\<rparr>,
      \<lparr>role = Assistant, content = ''hello''\<rparr>] \<and>
   length (messages (handle_all (default_config 0)
       [(''hi'', \<lambda>req. replying 10 ''hello'', False)] initial_state)) = 2 \<and>
   1 + 2 * min 1 (HISTORY_LENGTH (default_config 0)) = 1"
proof -
  have p: "push_user 0 ''hi'' (messages initial_state) =
      [\<lparr>role = System, content = ''You are a helpful Twitch Chatbot.''\<rparr>]"
    by (simp add: push_user_def splice_def initial_state_def Let_def)
  have h: "HISTORY_LENGTH (default_config 0) = 0" "GPT_MODE (default_config 0) = ''CHAT''"
    "10 < OPENAI_TIMEOUT_MS (default_config 0)"
    by (simp_all add: default_config_def)
  have hr: "OPENAI_TIMEOUT_MS (default_config 0) \<le> 2147483647"
    by (simp add: default_config_def)
  have m: "messages (new_state (handler (default_config 0) (\<lambda>req. replying 10 ''hello'')
      False ''hi'' initial_state)) =
     [\<lparr>role = System, content = ''You are a helpful Twitch Chatbot.''\<rparr>,
      \<lparr>role = Assistant, content = ''hello''\<rparr>]"
    by (simp add: handler_chat_replying(1)[OF h(2) _ h(3) hr] h(1) p js_trim_examples)
  have r: "reply (handler (default_config 0) (\<lambda>req. replying 10 ''hello'')
      False ''hi'' initial_state) = Some ''hello''"
    by (simp add: handler_chat_replying(2)[OF h(2) _ h(3) hr] js_trim_examples)
  show ?thesis
    by (simp add: h(1) p m r route_request_def h(2) chat_request_def)
qed


lemma last_push_user:
  assumes "1 \<le> h"
  shows "last (push_user h text msgs) = \<lparr>role = User, content = text\<rparr>"
proof (cases "h * 2 + 1 < length (msgs @ [\<lparr>role = User, content = text\<rparr>])")
  case True
  with assms have "3 \<le> length msgs" by simp
  with True have "push_user h text msgs =
      (take 1 msgs @ drop 3 msgs) @ [\<lparr>role = User, content = text\<rparr>]"
    by (simp add: push_user_def splice_def Let_def numeral_3_eq_3)
  then show ?thesis by (simp only: last_snoc)
next
  case False
  then show ?thesis by (simp add: push_user_def Let_def)
qed

text \<open>
  C10. In CHAT mode a request whose call fails leaves \<^verbatim>\<open>messages\<close> as the push (and
  the splice, if any) left it: nothing takes the user message out again, and with a
  window of at least one pair it is the last message. For example, with a window of
  one pair and both models answering 401 to \<open>q1\<close>, the conversation is the system
  message and \<open>q1\<close>. After \<open>q2\<close> is answered \<open>a2\<close> it is system, \<open>q1\<close>, \<open>q2\<close>, \<open>a2\<close>; then
  the push of \<open>q3\<close> makes five messages and \<^verbatim>\<open>splice(1, 2)\<close> removes \<open>q1\<close> and \<open>q2\<close>, two
  user messages, leaving the reply \<open>a2\<close> without its query.
\<close>

theorem failed_request_keeps_user_message:
  "(GPT_MODE cfg = ''CHAT'' \<and> outcome (route_call cfg w text st) = Settled t (Inl e) \<longrightarrow>
      messages (new_state (handler cfg w hs text st)) =
        push_user (HISTORY_LENGTH cfg) text (messages st) \<and>
      (1 \<le> HISTORY_LENGTH cfg \<longrightarrow>
         last (messages (new_state (handler cfg w hs text st))) =
           \<lparr>role = User, content = text\<rparr>)) \<and>
   messages (handle_all (default_config 1)
       [(''q1'', \<lambda>req. failing 10 (upstream_error 401), False),
        (''q2'', \<lambda>req. replying 10 ''a2'', False)] initial_state) =
     [\<lparr>role = System, content = ''You are a helpful Twitch Chatbot.''\<rparr>,
      \<lparr>role = User, content = ''q1''\<rparr>, \<lparr>role = User, content = ''q2''\<rparr>,
      \<lparr>role = Assistant, content = ''a2''\<rparr>] \<and>
   push_user (HISTORY_LENGTH (default_config 1)) ''q3''
     [\<lparr>role = System, content = ''You are a helpful Twitch Chatbot.''\<rparr>,
      \<lparr>role = User, content = ''q1''\<rparr>, \<lparr>role = User, content = ''q2''\<rparr>,
      \<lparr>role = Assistant, content = ''a2''\<rparr>] =
     [\<lparr>role = System, content = ''You are a helpful Twitch Chatbot.''\<rparr>,
      \<lparr>role = Assistant, content = ''a2''\<rparr>, \<lparr>role = User, content = ''q3''\<rparr>] \<and>
   messages (handle_all (default_config 1)
       [(''q1'', \<lambda>req. failing 10 (upstream_error 401), False),
        (''q2'', \<lambda>req. replying 10 ''a2'', False),
        (''q3'', \<lambda>req. replying 10 ''a3'', False)] initial_state) =
     [\<lparr>role = System, content = ''You are a helpful Twitch Chatbot.''\<rparr>,
      \<lparr>role = Assistant, content = ''a2''\<rparr>, \<lparr>role = User, content = ''q3''\<rparr>,
      \<lparr>role = Assistant, content = ''a3''\<rparr>]"
proof (intro conjI impI)
  assume a: "GPT_MODE cfg = ''CHAT'' \<and> outcome (route_call cfg w text st) = Settled t (Inl e)"
  then have "reply (handler cfg w hs text st) = None"
    by (intro handler_failure(2)[where t = t and e = e]) simp
  with a show m: "messages (new_state (handler cfg w hs text st)) =
        push_user (HISTORY_LENGTH cfg) text (messages st)"
    using handler_chat_messages[of cfg w hs "text" st] by simp
  assume "1 \<le> HISTORY_LENGTH cfg"
  then show "last (messages (new_state (handler cfg w hs text st))) =
           \<lparr>role = User, content = text\<rparr>"
    unfolding m by (rule last_push_user)
next
  have h: "HISTORY_LENGTH (default_config (Suc 0)) = 1" "GPT_MODE (default_config (Suc 0)) = ''CHAT''"
    "10 < OPENAI_TIMEOUT_MS (default_config (Suc 0))"
    by (simp_all add: default_config_def)
  have hr: "OPENAI_TIMEOUT_MS (default_config (Suc 0)) \<le> 2147483647"
    by (simp add: default_config_def)
  have n: "\<not> retriable (upstream_error 401)"
    by (simp add: retriable_upstream_error)
  have 1: "messages (new_state (handler (default_config (Suc 0))
      (\<lambda>req. failing 10 (upstream_error 401)) False ''q1'' initial_state)) =
     [\<lparr>role = System, content = ''You are a helpful Twitch Chatbot.''\<rparr>,
      \<lparr>role = User, content = ''q1''\<rparr>]"
    by (simp add: handler_chat_failing[OF h(2) _ n h(3) hr] h(1) push_user_def Let_def
          initial_state_def)
  have 2: "messages (new_state (handler (default_config (Suc 0)) (\<lambda>req. replying 10 ''a2'') False
      ''q2'' st)) =
     [\<lparr>role = System, content = ''You are a helpful Twitch Chatbot.''\<rparr>,
      \<lparr>role = User, content = ''q1''\<rparr>, \<lparr>role = User, content = ''q2''\<rparr>,
      \<lparr>role = Assistant, content = ''a2''\<rparr>]"
    if "messages st = [\<lparr>role = System, content = ''You are a helpful Twitch Chatbot.''\<rparr>,
      \<lparr>role = User, content = ''q1''\<rparr>]" for st
    using that
    by (simp add: handler_chat_replying(1)[OF h(2) _ h(3) hr] h(1) push_user_def Let_def
          js_trim_examples)
  show 3: "push_user (HISTORY_LENGTH (default_config 1)) ''q3''
     [\<lparr>role = System, content = ''You are a helpful Twitch Chatbot.''\<rparr>,
      \<lparr>role = User, content = ''q1''\<rparr>, \<lparr>role = User, content = ''q2''\<rparr>,
      \<lparr>role = Assistant, content = ''a2''\<rparr>] =
     [\<lparr>role = System, content = ''You are a helpful Twitch Chatbot.''\<rparr>,
      \<lparr>role = Assistant, content = ''a2''\<rparr>, \<lparr>role = User, content = ''q3''\<rparr>]"
    by (simp add: h(1) push_user_def splice_def Let_def)
  show 4: "messages (handle_all (default_config 1)
       [(''q1'', \<lambda>req. failing 10 (upstream_error 401), False),
        (''q2'', \<lambda>req. replying 10 ''a2'', False)] initial_state) =
     [\<lparr>role = System, content = ''You are a helpful Twitch Chatbot.''\<rparr>,
      \<lparr>role = User, content = ''q1''\<rparr>, \<lparr>role = User, content = ''q2''\<rparr>,
      \<lparr>role = Assistant, content = ''a2''\<rparr>]"
    by (simp add: 2[OF 1])
  show "messages (handle_all (default_config 1)
       [(''q1'', \<lambda>req. failing 10 (upstream_error 401), False),
        (''q2'', \<lambda>req. replying 10 ''a2'', False),
        (''q3'', \<lambda>req. replying 10 ''a3'', False)] initial_state) =
     [\<lparr>role = System, content = ''You are a helpful Twitch Chatbot.''\<rparr>,
      \<lparr>role = Assistant, content = ''a2''\<rparr>, \<lparr>role = User, content = ''q3''\<rparr>,
      \<lparr>role = Assistant, content = ''a3''\<rparr>]"
    by (simp add: handler_chat_replying(1)[OF h(2) _ h(3) hr] 2[OF 1] h(1) push_user_def
          splice_def Let_def js_trim_examples)
qed

theorem failed_request_keeps_user_message_witness:
  "GPT_MODE (default_config 1) = ''CHAT'' \<and>
   outcome (route_call (default_config 1) (\<lambda>req. failing 10 (upstream_error 401)) ''q1''
     initial_state) = Settled 20 (Inl (upstream_error 401)) \<and>
   1 \<le> HISTORY_LENGTH (default_config 1) \<and>
   messages (new_state (handler (default_config 1) (\<lambda>req. failing 10 (upstream_error 401))
     False ''q1'' initial_state)) =
     [\<lparr>role = System, content = ''You are a helpful Twitch Chatbot.''\<rparr>,
      \<lparr>role = User, content = ''q1''\<rparr>] \<and>
   last (messages (new_state (handler (default_config 1)
     (\<lambda>req. failing 10 (upstream_error 401)) False ''q1'' initial_state))) =
     \<lparr>role = User, content = ''q1''\<rparr>"
proof -
  have h: "HISTORY_LENGTH (default_config (Suc 0)) = 1" "GPT_MODE (default_config (Suc 0)) = ''CHAT''"
    "10 < OPENAI_TIMEOUT_MS (default_config (Suc 0))"
    "FALLBACK_MODEL (default_config (Suc 0)) = ''gpt-5-mini''"
    "OPENAI_MODEL (default_config (Suc 0)) = ''gpt-5''"
    by (simp_all add: default_config_def)
  have hr: "OPENAI_TIMEOUT_MS (default_config (Suc 0)) \<le> 2147483647"
    by (simp add: default_config_def)
  have n: "\<not> retriable (upstream_error 401)"
    by (simp add: retriable_upstream_error)
  have o: "outcome (route_call (default_config (Suc 0)) (\<lambda>req. failing 10 (upstream_error 401))
      ''q1'' initial_state) = Settled 20 (Inl (upstream_error 401))"
    by (simp add: route_call_failing[OF _ n h(3) hr] h(4,5))
  have p: "push_user (Suc 0) ''q1'' (messages initial_state) =
     [\<lparr>role = System, content = ''You are a helpful Twitch Chatbot.''\<rparr>,
      \<lparr>role = User, content = ''q1''\<rparr>]"
    by (simp add: push_user_def Let_def initial_state_def)
  show ?thesis
    using failed_request_keeps_user_message[of "default_config 1"
        "\<lambda>req. failing 10 (upstream_error 401)" "''q1''" initial_state 20
        "upstream_error 401" False]
    by (simp add: o h(1,2) p)
qed

end
